theory Spec2Isabelle
  imports Complex_Main
begin

section \<open>Python values shared by all modules\<close>

text \<open>
  A string is the list of the bytes of its UTF-8 encoding: an ASCII character is one
  byte below 128, any other character is two to four bytes from 128 up, and no byte of
  such a character is below 128. Tests for a prefix, a suffix or an ASCII character, and
  the removal of ASCII characters, therefore read the same on bytes as on characters.
  What \<open>str.strip\<close>, \<open>str.upper\<close>, \<open>str.lower\<close>, \<open>float\<close> and \<open>int\<close> do is written
  out for ASCII strings; what they do with a string that has other characters is the
  interpreter's, and is taken from the record \<open>pylib\<close> below.
\<close>

definition ascii :: "string \<Rightarrow> bool" where
  "ascii s = list_all (\<lambda>c. \<not> digit7 c) s"

definition ascii_lowercase :: string where
  "ascii_lowercase = ''abcdefghijklmnopqrstuvwxyz''"

definition ascii_uppercase :: string where
  "ascii_uppercase = ''ABCDEFGHIJKLMNOPQRSTUVWXYZ''"

definition upper_char :: "char \<Rightarrow> char" where
  "upper_char c = (case map_of (zip ascii_lowercase ascii_uppercase) c of Some u \<Rightarrow> u | None \<Rightarrow> c)"

definition lower_char :: "char \<Rightarrow> char" where
  "lower_char c = (case map_of (zip ascii_uppercase ascii_lowercase) c of Some u \<Rightarrow> u | None \<Rightarrow> c)"

text \<open>The ASCII characters for which \<open>str.isspace\<close> holds.\<close>

definition is_space :: "char \<Rightarrow> bool" where
  "is_space c = (c \<in> set [CHR '' '', CHR 0x09, CHR 0x0A, CHR 0x0B, CHR 0x0C, CHR 0x0D,
                             CHR 0x1C, CHR 0x1D, CHR 0x1E, CHR 0x1F])"

text \<open>\<open>s.lstrip(cs)\<close>, \<open>s.rstrip(cs)\<close> and \<open>s.strip(cs)\<close> for ASCII characters \<open>cs\<close>.\<close>

definition lstrip_chars :: "string \<Rightarrow> string \<Rightarrow> string" where
  "lstrip_chars cs s = dropWhile (\<lambda>c. c \<in> set cs) s"

definition rstrip_chars :: "string \<Rightarrow> string \<Rightarrow> string" where
  "rstrip_chars cs s = rev (dropWhile (\<lambda>c. c \<in> set cs) (rev s))"

definition strip_chars :: "string \<Rightarrow> string \<Rightarrow> string" where
  "strip_chars cs s = rstrip_chars cs (lstrip_chars cs s)"

definition startswith :: "string \<Rightarrow> string \<Rightarrow> bool" where
  "startswith s p = (take (length p) s = p)"

definition endswith :: "string \<Rightarrow> string \<Rightarrow> bool" where
  "endswith s p = (length p \<le> length s \<and> drop (length s - length p) s = p)"

text \<open>
  Exceptions are values: the class and the text of \<open>str(e)\<close>. Every class below
  derives from \<open>Exception\<close>; the \<open>except\<close> clauses of the program test for
  \<open>ValueError\<close>, \<open>OSError\<close> (with its subclasses) or \<open>Exception\<close>.
\<close>

datatype exc_class =
    ValueError | OverflowError | TypeError | KeyError | AttributeError
  | OSError | FileNotFoundError | FileExistsError | PermissionError
  | ReError | OtherException

datatype exn = Raised exc_class string

fun exc_class_of :: "exn \<Rightarrow> exc_class" where
  "exc_class_of (Raised c m) = c"

fun str_of_exn :: "exn \<Rightarrow> string" where
  "str_of_exn (Raised c m) = m"

definition is_ValueError :: "exn \<Rightarrow> bool" where
  "is_ValueError e = (exc_class_of e = ValueError)"

definition is_OSError :: "exn \<Rightarrow> bool" where
  "is_OSError e = (exc_class_of e \<in> set [OSError, FileNotFoundError, FileExistsError, PermissionError])"

text \<open>A Python float is a finite value, an infinity or a NaN.\<close>

datatype pyfloat = Finite rat | Infinity bool | NaN

text \<open>
  What the interpreter is asked for: the rounding of an exact rational to the nearest
  binary64 value (an infinity on overflow), and the methods of \<open>str\<close> and the parsers
  \<open>float\<close> and \<open>int\<close> on a string that is not ASCII (where Unicode decides what is a
  space, a letter's other case, or a digit).
\<close>

record pylib =
  float_round :: "rat \<Rightarrow> pyfloat"
  str_strip :: "string \<Rightarrow> string"
  str_upper :: "string \<Rightarrow> string"
  str_lower :: "string \<Rightarrow> string"
  str_strip_chars :: "string \<Rightarrow> string \<Rightarrow> string"
  float_of_str :: "string \<Rightarrow> exn + pyfloat"
  int_of_str :: "string \<Rightarrow> exn + int"

text \<open>The three methods on an ASCII string, and on any string.\<close>

definition ascii_upper :: "string \<Rightarrow> string" where
  "ascii_upper s = map upper_char s"

definition ascii_lower :: "string \<Rightarrow> string" where
  "ascii_lower s = map lower_char s"

definition ascii_strip :: "string \<Rightarrow> string" where
  "ascii_strip s = rev (dropWhile is_space (rev (dropWhile is_space s)))"

definition upper :: "'a pylib_scheme \<Rightarrow> string \<Rightarrow> string" where
  "upper L s = (if ascii s then ascii_upper s else str_upper L s)"

definition lower :: "'a pylib_scheme \<Rightarrow> string \<Rightarrow> string" where
  "lower L s = (if ascii s then ascii_lower s else str_lower L s)"

definition strip :: "'a pylib_scheme \<Rightarrow> string \<Rightarrow> string" where
  "strip L s = (if ascii s then ascii_strip s else str_strip L s)"

section \<open>parser.py: numbers read from strings\<close>

text \<open>
  The syntax \<open>float(str)\<close> and \<open>int(str)\<close> accept in an ASCII string is written out;
  \<open>fl\<close> is the interpreter, which rounds every float that is built.
\<close>

definition is_digit :: "char \<Rightarrow> bool" where
  "is_digit c = (c \<in> set ''0123456789'')"

definition digit_val :: "char \<Rightarrow> int" where
  "digit_val c = (case map_of (zip ''0123456789'' [0, 1, 2, 3, 4, 5, 6, 7, 8, 9]) c of
                    Some v \<Rightarrow> v | None \<Rightarrow> 0)"

definition int_of_digits :: "string \<Rightarrow> int" where
  "int_of_digits ds = foldl (\<lambda>acc c. 10 * acc + digit_val c) 0 ds"

fun digit_run :: "string \<Rightarrow> string \<Rightarrow> string \<times> string" where
  "digit_run acc [] = (acc, [])"
| "digit_run acc [c] = (if is_digit c then (acc @ [c], []) else (acc, [c]))"
| "digit_run acc (c # d # cs) =
     (if is_digit c then digit_run (acc @ [c]) (d # cs)
      else if c = CHR ''_'' \<and> is_digit d then digit_run (acc @ [d]) cs
      else (acc, c # d # cs))"

text \<open>\<open>digitpart ::= digit (["_"] digit)*\<close>: the digits read and the rest of the string.\<close>

fun digitpart :: "string \<Rightarrow> (string \<times> string) option" where
  "digitpart [] = None"
| "digitpart (c # cs) = (if is_digit c then Some (digit_run [c] cs) else None)"

fun split_sign :: "string \<Rightarrow> bool \<times> string" where
  "split_sign [] = (False, [])"
| "split_sign (c # cs) =
     (if c = CHR ''-'' then (True, cs) else if c = CHR ''+'' then (False, cs) else (False, c # cs))"

text \<open>\<open>number ::= [digitpart] "." digitpart | digitpart ["."]\<close>\<close>

definition number :: "string \<Rightarrow> (string \<times> string \<times> string) option" where
  "number s =
     (case digitpart s of
        Some (ip, r) \<Rightarrow>
          (case r of
             [] \<Rightarrow> Some (ip, [], [])
           | c # r' \<Rightarrow>
               if c = CHR ''.'' then
                 (case digitpart r' of
                    Some (fp, r'') \<Rightarrow> Some (ip, fp, r'')
                  | None \<Rightarrow> Some (ip, [], r'))
               else Some (ip, [], r))
      | None \<Rightarrow>
          (case s of
             [] \<Rightarrow> None
           | c # r' \<Rightarrow>
               if c = CHR ''.'' then
                 (case digitpart r' of
                    Some (fp, r'') \<Rightarrow> Some ([], fp, r'')
                  | None \<Rightarrow> None)
               else None))"

text \<open>\<open>exponent ::= ("e" | "E") [sign] digitpart\<close>, optional, up to the end of the string.\<close>

definition exponent :: "string \<Rightarrow> int option" where
  "exponent r =
     (case r of
        [] \<Rightarrow> Some 0
      | c # r' \<Rightarrow>
          if c = CHR ''e'' \<or> c = CHR ''E'' then
            (case split_sign r' of
               (neg, r2) \<Rightarrow>
                 (case digitpart r2 of
                    Some (ds, rest) \<Rightarrow>
                      if rest = [] then
                        Some (if neg then - int_of_digits ds else int_of_digits ds)
                      else None
                  | None \<Rightarrow> None))
          else None)"

definition pow10 :: "int \<Rightarrow> rat" where
  "pow10 e = (if 0 \<le> e then 10 ^ nat e else 1 / 10 ^ nat (- e))"

definition floatnumber :: "string \<Rightarrow> rat option" where
  "floatnumber s =
     (case number s of
        None \<Rightarrow> None
      | Some (ip, fp, r) \<Rightarrow>
          (case exponent r of
             None \<Rightarrow> None
           | Some ex \<Rightarrow> Some (of_int (int_of_digits (ip @ fp)) * pow10 (ex - int (length fp)))))"

text \<open>\<open>float(s)\<close> for a string: surrounding whitespace is dropped, then
  \<open>[sign] (floatnumber | "inf" | "infinity" | "nan")\<close>, letters in either case.\<close>

definition py_float :: "'a pylib_scheme \<Rightarrow> string \<Rightarrow> exn + pyfloat" where
  "py_float fl s =
     (if \<not> ascii s then float_of_str fl s
      else
        (case split_sign (ascii_strip s) of
           (neg, t) \<Rightarrow>
             if ascii_lower t = ''inf'' \<or> ascii_lower t = ''infinity'' then Inr (Infinity neg)
             else if ascii_lower t = ''nan'' then Inr NaN
             else
               (case floatnumber t of
                  Some q \<Rightarrow> Inr (float_round fl (if neg then - q else q))
                | None \<Rightarrow> Inl (Raised ValueError ''could not convert string to float''))))"

text \<open>\<open>x * multiplier\<close> for a float and a positive int that a float holds exactly.\<close>

fun float_mul :: "'a pylib_scheme \<Rightarrow> pyfloat \<Rightarrow> int \<Rightarrow> pyfloat" where
  "float_mul fl (Finite q) m = float_round fl (q * of_int m)"
| "float_mul fl (Infinity neg) m = Infinity neg"
| "float_mul fl NaN m = NaN"

text \<open>\<open>int(x)\<close> for a float: truncation towards zero.\<close>

fun int_of_float :: "pyfloat \<Rightarrow> exn + int" where
  "int_of_float (Finite q) = Inr (if 0 \<le> q then \<lfloor>q\<rfloor> else - \<lfloor>- q\<rfloor>)"
| "int_of_float (Infinity neg) = Inl (Raised OverflowError ''cannot convert float infinity to integer'')"
| "int_of_float NaN = Inl (Raised ValueError ''cannot convert float NaN to integer'')"

text \<open>\<open>int(s)\<close> for a string, base 10.\<close>

definition py_int :: "'a pylib_scheme \<Rightarrow> string \<Rightarrow> exn + int" where
  "py_int fl s =
     (if \<not> ascii s then int_of_str fl s
      else
        (case split_sign (ascii_strip s) of
           (neg, t) \<Rightarrow>
             (case digitpart t of
                Some (ds, rest) \<Rightarrow>
                  if rest = [] then Inr (if neg then - int_of_digits ds else int_of_digits ds)
                  else Inl (Raised ValueError ''invalid literal for int() with base 10'')
              | None \<Rightarrow> Inl (Raised ValueError ''invalid literal for int() with base 10''))))"

subsection \<open>parse_size\<close>

definition units :: "(string \<times> int) list" where
  "units = [(''B'', 1), (''KB'', 1024), (''MB'', 1024 * 1024), (''GB'', 1024 * 1024 * 1024),
            (''TB'', 1024 * 1024 * 1024 * 1024)]"

text \<open>
  The loop over \<open>units.items()\<close>, in the dict's insertion order. \<open>Some r\<close> is a
  \<open>return\<close> (or an exception that is not a \<open>ValueError\<close>) from inside the loop;
  \<open>None\<close> is the loop left by \<open>break\<close> or by exhaustion.
\<close>

fun parse_size_loop :: "'a pylib_scheme \<Rightarrow> string \<Rightarrow> (string \<times> int) list \<Rightarrow> (exn + int) option" where
  "parse_size_loop fl size_str [] = None"
| "parse_size_loop fl size_str ((unit, multiplier) # rest) =
     (if endswith size_str unit then
        (case py_float fl (take (length size_str - length unit) size_str) of
           Inl e \<Rightarrow> if is_ValueError e then None else Some (Inl e)
         | Inr x \<Rightarrow>
             (case int_of_float (float_mul fl x multiplier) of
                Inl e \<Rightarrow> if is_ValueError e then None else Some (Inl e)
              | Inr n \<Rightarrow> Some (Inr n)))
      else parse_size_loop fl size_str rest)"

definition parse_size :: "'a pylib_scheme \<Rightarrow> string \<Rightarrow> exn + int" where
  "parse_size fl size_str0 =
     (let size_str = upper fl (strip fl size_str0) in
      case parse_size_loop fl size_str units of
        Some r \<Rightarrow> r
      | None \<Rightarrow>
          (case py_int fl size_str of
             Inr n \<Rightarrow> Inr n
           | Inl e \<Rightarrow> if is_ValueError e then Inr 0 else Inl e))"

subsection \<open>pathlib paths\<close>

text \<open>
  A pure POSIX path is its root (empty, one slash or two slashes) and its parts.
  Reading a string drops empty and single-dot components; the suffix is as in
  Python 3.8 to 3.12.
\<close>

datatype path = Path (path_root: string) (path_parts: "string list")

fun split_on :: "char \<Rightarrow> string \<Rightarrow> string list" where
  "split_on sep [] = [[]]"
| "split_on sep (x # xs) =
     (if x = sep then [] # split_on sep xs
      else (case split_on sep xs of [] \<Rightarrow> [[x]] | h # t \<Rightarrow> (x # h) # t))"

fun join_str :: "string \<Rightarrow> string list \<Rightarrow> string" where
  "join_str sep [] = []"
| "join_str sep [x] = x"
| "join_str sep (x # y # ys) = x @ sep @ join_str sep (y # ys)"

definition root_of_string :: "string \<Rightarrow> string" where
  "root_of_string s =
     (if startswith s ''//'' \<and> \<not> startswith s ''///'' then ''//''
      else if startswith s ''/'' then ''/'' else [])"

definition path_of_string :: "string \<Rightarrow> path" where
  "path_of_string s = Path (root_of_string s) (filter (\<lambda>c. c \<noteq> [] \<and> c \<noteq> ''.'') (split_on CHR ''/'' s))"

definition path_str :: "path \<Rightarrow> string" where
  "path_str p =
     (if path_root p = [] \<and> path_parts p = [] then ''.''
      else path_root p @ join_str ''/'' (path_parts p))"

definition path_name :: "path \<Rightarrow> string" where
  "path_name p = (if path_parts p = [] then [] else last (path_parts p))"

definition path_parent :: "path \<Rightarrow> path" where
  "path_parent p = Path (path_root p) (butlast (path_parts p))"

definition joinpath :: "path \<Rightarrow> string \<Rightarrow> path" where
  "joinpath p s =
     (let q = path_of_string s in
      if path_root q \<noteq> [] then q else Path (path_root p) (path_parts p @ path_parts q))"

text \<open>\<open>name.rfind('.')\<close>: the index of the last dot, if there is one.\<close>

definition rfind_dot :: "string \<Rightarrow> nat option" where
  "rfind_dot nm =
     (let k = length (takeWhile (\<lambda>c. c \<noteq> CHR ''.'') (rev nm)) in
      if k = length nm then None else Some (length nm - 1 - k))"

definition path_suffix :: "path \<Rightarrow> string" where
  "path_suffix p =
     (let nm = path_name p in
      case rfind_dot nm of
        Some i \<Rightarrow> if 0 < i \<and> i < length nm - 1 then drop i nm else []
      | None \<Rightarrow> [])"

definition path_stem :: "path \<Rightarrow> string" where
  "path_stem p =
     (let nm = path_name p in
      case rfind_dot nm of
        Some i \<Rightarrow> if 0 < i \<and> i < length nm - 1 then take i nm else nm
      | None \<Rightarrow> nm)"

subsection \<open>The operating system and the libraries\<close>

text \<open>
  The program reaches the file system, the clock, other processes, the log file and the
  libraries \<open>re\<close>, \<open>hashlib\<close>, \<open>plistlib\<close> only through the calls below. They are
  parameters of the model: \<open>'w\<close> is the state of the world outside the program.

  A call of the \<open>stat\<close> family (\<open>stat\<close>, \<open>exists\<close>, \<open>is_file\<close>, \<open>is_dir\<close>,
  \<open>resolve\<close>) looks at the world and leaves it as it is: it is a function of the
  world, and its value is an answer or the exception raised. \<open>pathlib\<close>'s \<open>exists\<close>,
  \<open>is_file\<close> and \<open>is_dir\<close> answer \<open>False\<close> for a missing file and raise every other
  \<open>OSError\<close>, such as a name that is too long or a directory that may not be searched.

  Reading a directory tree or the content of a file can set access times, so such a
  call returns the world after it. \<open>rglob\<close> is a generator: it gives the paths it
  yields, each with the world at the moment it is yielded, then the world when the walk
  ends and the exception that ended it, if any.

  A call that may change the world returns the new world, with the exception it
  raised, if any.
\<close>

text \<open>The external programs the actions start with \<open>subprocess.run\<close>.\<close>

datatype command =
    XattrWriteTags string path
  | OsascriptSetLabel path nat
  | OsascriptDelete path

text \<open>
  \<open>unexpected_keyword\<close> is the text of the \<open>TypeError\<close> the interpreter raises for a
  call of \<open>add_tag\<close> with these keyword names, one of which the method does not take.
\<close>

record 'w sys = pylib +
  expanduser :: "string \<Rightarrow> string"
  platform_system :: string
  re_search :: "string \<Rightarrow> string \<Rightarrow> exn + bool"
  re_sub :: "string \<Rightarrow> string \<Rightarrow> string \<Rightarrow> exn + string"
  sha256_hexdigest :: "string \<Rightarrow> string"
  plist_base64 :: "string list \<Rightarrow> exn + string"
  unexpected_keyword :: "string list \<Rightarrow> string"
  path_exists :: "'w \<Rightarrow> path \<Rightarrow> exn + bool"
  is_file :: "'w \<Rightarrow> path \<Rightarrow> exn + bool"
  is_dir :: "'w \<Rightarrow> path \<Rightarrow> exn + bool"
  stat_size :: "'w \<Rightarrow> path \<Rightarrow> exn + nat"
  stat_mtime :: "'w \<Rightarrow> path \<Rightarrow> exn + rat"
  resolve :: "'w \<Rightarrow> path \<Rightarrow> exn + path"
  rglob :: "'w \<Rightarrow> path \<Rightarrow> ('w \<times> path) list \<times> 'w \<times> exn option"
  read_bytes :: "'w \<Rightarrow> path \<Rightarrow> 'w \<times> (exn + string)"
  mkdir_parents :: "'w \<Rightarrow> path \<Rightarrow> 'w \<times> exn option"
  shutil_move :: "'w \<Rightarrow> string \<Rightarrow> string \<Rightarrow> 'w \<times> exn option"
  path_rename :: "'w \<Rightarrow> path \<Rightarrow> path \<Rightarrow> 'w \<times> exn option"
  path_unlink :: "'w \<Rightarrow> path \<Rightarrow> 'w \<times> exn option"
  subprocess_run :: "'w \<Rightarrow> command \<Rightarrow> 'w \<times> (exn + int)"
  datetime_now :: "'w \<Rightarrow> 'w \<times> nat"

subsection \<open>Condition\<close>

record condition =
  path :: "string option"
  extension :: "string list option"
  pattern :: "string option"
  size_gt :: "int option"
  size_lt :: "int option"
  name_pattern :: "string option"

text \<open>Python truthiness of an optional string, list or int.\<close>

fun truthy :: "'a list option \<Rightarrow> bool" where
  "truthy None = False"
| "truthy (Some xs) = (xs \<noteq> [])"

fun truthy_int :: "int option \<Rightarrow> bool" where
  "truthy_int None = False"
| "truthy_int (Some n) = (n \<noteq> 0)"

text \<open>The size block of \<open>Condition.matches\<close>, entered when a size bound is truthy.\<close>

definition size_check :: "'w sys \<Rightarrow> 'w \<Rightarrow> condition \<Rightarrow> path \<Rightarrow> exn + bool" where
  "size_check S w c file_path =
     (case stat_size S w file_path of
        Inl e \<Rightarrow> if is_OSError e then Inr False else Inl e
      | Inr sz \<Rightarrow>
          if truthy_int (size_gt c) \<and> int sz \<le> (case size_gt c of Some n \<Rightarrow> n | None \<Rightarrow> 0) then Inr False
          else if truthy_int (size_lt c) \<and> int sz \<ge> (case size_lt c of Some n \<Rightarrow> n | None \<Rightarrow> 0) then Inr False
          else Inr True)"

text \<open>One regex block of \<open>Condition.matches\<close>: \<open>re.search\<close> on the file name.\<close>

definition search_name :: "'w sys \<Rightarrow> string option \<Rightarrow> path \<Rightarrow> exn + bool" where
  "search_name S pat file_path =
     (case pat of
        None \<Rightarrow> Inr True
      | Some p \<Rightarrow> if p = [] then Inr True else re_search S p (path_name file_path))"

definition matches :: "'w sys \<Rightarrow> 'w \<Rightarrow> condition \<Rightarrow> path \<Rightarrow> exn + bool" where
  "matches S w c file_path =
     (if truthy (path c) \<and>
         \<not> startswith (path_str file_path) (expanduser S (case path c of Some p \<Rightarrow> p | None \<Rightarrow> []))
      then Inr False
      else if truthy (extension c) \<and>
         lstrip_chars ''.'' (lower S (path_suffix file_path))
           \<notin> set (map (\<lambda>e. lstrip_chars ''.'' (lower S e)) (case extension c of Some es \<Rightarrow> es | None \<Rightarrow> []))
      then Inr False
      else
        (case search_name S (name_pattern c) file_path of
           Inl e \<Rightarrow> Inl e
         | Inr found_name \<Rightarrow>
             if \<not> found_name then Inr False
             else
               (case search_name S (pattern c) file_path of
                  Inl e \<Rightarrow> Inl e
                | Inr found \<Rightarrow>
                    if \<not> found then Inr False
                    else if truthy_int (size_gt c) \<or> truthy_int (size_lt c)
                      then size_check S w c file_path
                    else Inr True)))"

subsection \<open>parse_condition\<close>

text \<open>
  The values a rule file gives for the keys of a condition. A size is a string or an
  int in the file; the other keys have the types the \<open>Condition\<close> dataclass declares.
\<close>

datatype yaml_size = YStr string | YInt int

record cond_data =
  cd_path :: "string option"
  cd_extension :: "string list option"
  cd_pattern :: "string option"
  cd_name_pattern :: "string option"
  cd_size_gt :: "yaml_size option"
  cd_size_lt :: "yaml_size option"

fun parse_size_field :: "'a pylib_scheme \<Rightarrow> yaml_size option \<Rightarrow> exn + int option" where
  "parse_size_field fl None = Inr None"
| "parse_size_field fl (Some (YInt n)) = Inr (Some n)"
| "parse_size_field fl (Some (YStr s)) =
     (case parse_size fl s of Inl e \<Rightarrow> Inl e | Inr n \<Rightarrow> Inr (Some n))"

definition parse_condition :: "'a pylib_scheme \<Rightarrow> cond_data \<Rightarrow> exn + condition" where
  "parse_condition fl d =
     (case parse_size_field fl (cd_size_gt d) of
        Inl e \<Rightarrow> Inl e
      | Inr gt \<Rightarrow>
          (case parse_size_field fl (cd_size_lt d) of
             Inl e \<Rightarrow> Inl e
           | Inr lt \<Rightarrow>
               Inr \<lparr>path = cd_path d, extension = cd_extension d, pattern = cd_pattern d,
                    size_gt = gt, size_lt = lt, name_pattern = cd_name_pattern d\<rparr>))"

subsection \<open>Action, Rule, DuplicateRule\<close>

text \<open>A Python dict with string keys, in insertion order; keys are distinct.\<close>

type_synonym str_dict = "(string \<times> string) list"

record action =
  move :: "string option"
  create_if_missing :: bool
  rename :: "string option"
  replace :: "string option"
  prefix :: "string option"
  suffix :: "string option"
  separator :: string
  tag :: "str_dict option"

record rule =
  name :: string
  condition :: condition
  action :: action
  enabled :: bool

text \<open>
  The \<open>action\<close> dict of a duplicate rule, read with \<open>.get\<close> and a default by the
  runner: a key that is absent is \<open>None\<close> here.
\<close>

record duplicate_action =
  keep :: "string option"
  tag_duplicates :: "bool option"
  duplicate_label :: "string option"

record duplicate_rule =
  dup_name :: string
  check_by :: string
  dup_action :: duplicate_action
  dup_enabled :: bool

section \<open>actions/tagger.py\<close>

definition TAG_COLORS :: "(string \<times> string) list" where
  "TAG_COLORS = [(''gray'', ''gray''), (''red'', ''red''), (''orange'', ''orange''),
                 (''yellow'', ''yellow''), (''green'', ''green''), (''blue'', ''blue''),
                 (''purple'', ''purple'')]"

definition TAG_COLOR_INDEX :: "(string \<times> nat) list" where
  "TAG_COLOR_INDEX = [(''gray'', 1), (''red'', 2), (''orange'', 3), (''yellow'', 4),
                      (''green'', 5), (''blue'', 6), (''purple'', 7)]"

definition is_macos :: "'w sys \<Rightarrow> bool" where
  "is_macos S = (platform_system S = ''Darwin'')"

text \<open>The first tag that names a colour gives the label index; 0 when none does.\<close>

fun color_index_of :: "'w sys \<Rightarrow> string list \<Rightarrow> nat" where
  "color_index_of S [] = 0"
| "color_index_of S (t # ts) =
     (case map_of TAG_COLOR_INDEX (lower S t) of Some i \<Rightarrow> i | None \<Rightarrow> color_index_of S ts)"

definition add_tag_osascript :: "'w sys \<Rightarrow> 'w \<Rightarrow> path \<Rightarrow> string list \<Rightarrow> 'w \<times> exn option" where
  "add_tag_osascript S w file_path tags =
     (let color_index = color_index_of S tags in
      case resolve S w file_path of
        Inl e \<Rightarrow> (w, Some e)
      | Inr resolved \<Rightarrow>
          (case subprocess_run S w (OsascriptSetLabel resolved color_index) of
             (w', Inl e) \<Rightarrow> (w', Some e)
           | (w', Inr rc) \<Rightarrow> (w', None)))"

text \<open>
  \<open>Tagger.add_tag\<close>. The platform and \<open>file_path.exists()\<close> are tested before the
  \<open>try\<close>, so an exception of \<open>exists\<close> leaves the method; every exception raised
  after the tag list is built is caught and turned into the result \<open>False\<close>.
\<close>

definition add_tag ::
  "'w sys \<Rightarrow> 'w \<Rightarrow> path \<Rightarrow> string option \<Rightarrow> string option \<Rightarrow> 'w \<times> (exn + bool)" where
  "add_tag S w file_path color label =
     (if \<not> is_macos S then (w, Inr False)
      else
        (case path_exists S w file_path of
           Inl e \<Rightarrow> (w, Inl e)
         | Inr ex \<Rightarrow>
             if \<not> ex then (w, Inr False)
             else
               (let tags =
                      (case color of
                         None \<Rightarrow> []
                       | Some c \<Rightarrow>
                           (if c \<noteq> [] then
                              (case map_of TAG_COLORS (lower S c) of Some t \<Rightarrow> [t] | None \<Rightarrow> [])
                            else []))
                      @ (case label of None \<Rightarrow> [] | Some l \<Rightarrow> if l \<noteq> [] then [l] else [])
                in
                  if tags = [] then (w, Inr False)
                  else
                    (case plist_base64 S tags of
                       Inl e \<Rightarrow> (w, Inr False)
                     | Inr plist \<Rightarrow>
                         (case subprocess_run S w (XattrWriteTags plist file_path) of
                            (w1, Inl e) \<Rightarrow> (w1, Inr False)
                          | (w1, Inr returncode) \<Rightarrow>
                              if returncode \<noteq> 0 then
                                (case add_tag_osascript S w1 file_path tags of
                                   (w2, Some e) \<Rightarrow> (w2, Inr False)
                                 | (w2, None) \<Rightarrow> (w2, Inr True))
                              else (w1, Inr True))))))"

text \<open>
  A call \<open>add_tag(file_path, **kwargs)\<close>: the call itself raises \<open>TypeError\<close> when a
  key of the dict is not \<open>color\<close> or \<open>label\<close>, the two parameters the method can
  take by keyword here.
\<close>

definition add_tag_kwargs :: "'w sys \<Rightarrow> 'w \<Rightarrow> path \<Rightarrow> str_dict \<Rightarrow> 'w \<times> (exn + bool)" where
  "add_tag_kwargs S w file_path kwargs =
     (if list_all (\<lambda>k. k = ''color'' \<or> k = ''label'') (map fst kwargs) then
        add_tag S w file_path (map_of kwargs ''color'') (map_of kwargs ''label'')
      else (w, Inl (Raised TypeError (unexpected_keyword S (map fst kwargs)))))"

section \<open>actions/deduplicator.py\<close>

text \<open>\<open>defaultdict(list)\<close> with \<open>d[k].append(v)\<close>: an association list in insertion order.\<close>

fun dict_append :: "('k \<times> 'v list) list \<Rightarrow> 'k \<Rightarrow> 'v \<Rightarrow> ('k \<times> 'v list) list" where
  "dict_append [] k v = [(k, [v])]"
| "dict_append ((k', vs) # d) k v =
     (if k' = k then (k', vs @ [v]) # d else (k', vs) # dict_append d k v)"

definition multi_groups :: "('k \<times> 'v list) list \<Rightarrow> 'v list list" where
  "multi_groups groups = filter (\<lambda>paths. length paths > 1) (map snd groups)"

fun find_by_name_loop :: "(string \<times> path list) list \<Rightarrow> path list \<Rightarrow> (string \<times> path list) list" where
  "find_by_name_loop groups [] = groups"
| "find_by_name_loop groups (file_path # files) =
     find_by_name_loop (dict_append groups (path_name file_path) file_path) files"

definition find_by_name :: "path list \<Rightarrow> path list list" where
  "find_by_name files = multi_groups (find_by_name_loop [] files)"

text \<open>
  \<open>_hash_file\<close>: the hasher is fed the file in chunks of \<open>chunk_size\<close> bytes until a
  read returns nothing; its state is the bytes it has been fed.
\<close>

function hash_chunks :: "nat \<Rightarrow> string \<Rightarrow> string \<Rightarrow> string" where
  "hash_chunks chunk_size hasher rest =
     (let chunk = take chunk_size rest in
      if chunk = [] then hasher
      else hash_chunks chunk_size (hasher @ chunk) (drop chunk_size rest))"
  by pat_completeness auto
termination
  by (relation "measure (\<lambda>(n, h, r). length r)") auto

declare hash_chunks.simps [simp del]

definition hash_file :: "'w sys \<Rightarrow> 'w \<Rightarrow> path \<Rightarrow> 'w \<times> (exn + string)" where
  "hash_file S w file_path =
     (case read_bytes S w file_path of
        (w', Inl e) \<Rightarrow> (w', Inl e)
      | (w', Inr content) \<Rightarrow> (w', Inr (sha256_hexdigest S (hash_chunks 8192 [] content))))"

text \<open>
  The loop of \<open>_find_by_content\<close>. \<open>file_path.is_file()\<close> stands before the \<open>try\<close>:
  an exception it raises leaves the method; an exception of the hashing is caught, and
  the loop goes on with the next file.
\<close>

fun find_by_content_loop ::
  "'w sys \<Rightarrow> 'w \<Rightarrow> (string \<times> path list) list \<Rightarrow> path list
     \<Rightarrow> 'w \<times> (exn + (string \<times> path list) list)" where
  "find_by_content_loop S w hash_groups [] = (w, Inr hash_groups)"
| "find_by_content_loop S w hash_groups (file_path # files) =
     (case is_file S w file_path of
        Inl e \<Rightarrow> (w, Inl e)
      | Inr regular \<Rightarrow>
          if \<not> regular then find_by_content_loop S w hash_groups files
          else
            (case hash_file S w file_path of
               (w', Inl e) \<Rightarrow> find_by_content_loop S w' hash_groups files
             | (w', Inr file_hash) \<Rightarrow>
                 find_by_content_loop S w' (dict_append hash_groups file_hash file_path) files))"

definition find_by_content :: "'w sys \<Rightarrow> 'w \<Rightarrow> path list \<Rightarrow> 'w \<times> (exn + path list list)" where
  "find_by_content S w files =
     (case find_by_content_loop S w [] files of
        (w', Inl e) \<Rightarrow> (w', Inl e)
      | (w', Inr hash_groups) \<Rightarrow> (w', Inr (multi_groups hash_groups)))"

definition find_duplicates ::
  "'w sys \<Rightarrow> 'w \<Rightarrow> path list \<Rightarrow> string \<Rightarrow> 'w \<times> (exn + path list list)" where
  "find_duplicates S w files chk =
     (if chk = ''name'' then (w, Inr (find_by_name files)) else find_by_content S w files)"

text \<open>
  \<open>max(xs, key=k)\<close> and \<open>min(xs, key=k)\<close>: the key of every element is computed in
  order, and the first element with the greatest (least) key wins.
\<close>

fun py_max_loop :: "('a \<Rightarrow> exn + rat) \<Rightarrow> 'a \<Rightarrow> rat \<Rightarrow> 'a list \<Rightarrow> exn + 'a" where
  "py_max_loop key best bv [] = Inr best"
| "py_max_loop key best bv (x # xs) =
     (case key x of
        Inl e \<Rightarrow> Inl e
      | Inr v \<Rightarrow> if v > bv then py_max_loop key x v xs else py_max_loop key best bv xs)"

definition py_max :: "('a \<Rightarrow> exn + rat) \<Rightarrow> 'a list \<Rightarrow> exn + 'a" where
  "py_max key xs =
     (case xs of
        [] \<Rightarrow> Inl (Raised ValueError ''max() arg is an empty sequence'')
      | x # rest \<Rightarrow> (case key x of Inl e \<Rightarrow> Inl e | Inr v \<Rightarrow> py_max_loop key x v rest))"

fun py_min_loop :: "('a \<Rightarrow> exn + rat) \<Rightarrow> 'a \<Rightarrow> rat \<Rightarrow> 'a list \<Rightarrow> exn + 'a" where
  "py_min_loop key best bv [] = Inr best"
| "py_min_loop key best bv (x # xs) =
     (case key x of
        Inl e \<Rightarrow> Inl e
      | Inr v \<Rightarrow> if v < bv then py_min_loop key x v xs else py_min_loop key best bv xs)"

definition py_min :: "('a \<Rightarrow> exn + rat) \<Rightarrow> 'a list \<Rightarrow> exn + 'a" where
  "py_min key xs =
     (case xs of
        [] \<Rightarrow> Inl (Raised ValueError ''min() arg is an empty sequence'')
      | x # rest \<Rightarrow> (case key x of Inl e \<Rightarrow> Inl e | Inr v \<Rightarrow> py_min_loop key x v rest))"

text \<open>The choice of \<open>keep_file\<close> in \<open>handle_duplicates\<close>.\<close>

definition keep_file :: "'w sys \<Rightarrow> 'w \<Rightarrow> path list \<Rightarrow> string \<Rightarrow> exn + path" where
  "keep_file S w duplicate_group kp =
     (if kp = ''newest'' then py_max (stat_mtime S w) duplicate_group
      else if kp = ''oldest'' then py_min (stat_mtime S w) duplicate_group
      else
        (case duplicate_group of
           [] \<Rightarrow> Inl (Raised OtherException ''list index out of range'')
         | first # rest \<Rightarrow> Inr first))"

definition move_to_trash :: "'w sys \<Rightarrow> 'w \<Rightarrow> path \<Rightarrow> 'w \<times> exn option" where
  "move_to_trash S w file_path =
     (if platform_system S = ''Darwin'' then
        (case subprocess_run S w (OsascriptDelete file_path) of
           (w', Inl e) \<Rightarrow> (w', Some e)
         | (w', Inr rc) \<Rightarrow> (w', None))
      else
        (case path_unlink S w file_path of (w', e) \<Rightarrow> (w', None)))"

text \<open>The loop over the group that handles every file but the kept one.\<close>

fun handle_remaining ::
  "'w sys \<Rightarrow> 'w \<Rightarrow> path \<Rightarrow> bool \<Rightarrow> string \<Rightarrow> path list \<Rightarrow> 'w \<times> exn option" where
  "handle_remaining S w kept tagd label [] = (w, None)"
| "handle_remaining S w kept tagd label (file_path # files) =
     (if file_path = kept then handle_remaining S w kept tagd label files
      else if tagd then
        (case add_tag S w file_path None (Some label) of
           (w', Inl e) \<Rightarrow> (w', Some e)
         | (w', Inr tagged) \<Rightarrow> handle_remaining S w' kept tagd label files)
      else
        (case move_to_trash S w file_path of
           (w', Some e) \<Rightarrow> (w', Some e)
         | (w', None) \<Rightarrow> handle_remaining S w' kept tagd label files))"

definition handle_duplicates ::
  "'w sys \<Rightarrow> 'w \<Rightarrow> path list \<Rightarrow> string \<Rightarrow> bool \<Rightarrow> string \<Rightarrow> 'w \<times> exn option" where
  "handle_duplicates S w duplicate_group kp tagd label =
     (if length duplicate_group < 2 then (w, None)
      else
        (case keep_file S w duplicate_group kp of
           Inl e \<Rightarrow> (w, Some e)
         | Inr kept \<Rightarrow> handle_remaining S w kept tagd label duplicate_group))"

section \<open>actions/mover.py\<close>

definition mover_move :: "'w sys \<Rightarrow> 'w \<Rightarrow> path \<Rightarrow> path \<Rightarrow> 'w \<times> (exn + path)" where
  "mover_move S w src destination0 =
     (case path_exists S w src of
        Inl e \<Rightarrow> (w, Inl e)
      | Inr ex \<Rightarrow>
          if \<not> ex then
            (w, Inl (Raised FileNotFoundError (''Source file not found: '' @ path_str src)))
          else
            (case is_dir S w destination0 of
               Inl e \<Rightarrow> (w, Inl e)
             | Inr dir \<Rightarrow>
                 (let destination =
                        (if dir then joinpath destination0 (path_name src) else destination0)
                  in
                    case mkdir_parents S w (path_parent destination) of
                      (w1, Some e) \<Rightarrow> (w1, Inl e)
                    | (w1, None) \<Rightarrow>
                        (case shutil_move S w1 (path_str src) (path_str destination) of
                           (w2, Some e) \<Rightarrow> (w2, Inl e)
                         | (w2, None) \<Rightarrow> (w2, Inr destination)))))"

section \<open>actions/renamer.py\<close>

definition backslash :: char where
  "backslash = CHR 0x5C"

text \<open>\<open>re.escape\<close>: a backslash before each character that is special in a pattern.\<close>

definition re_special_chars :: string where
  "re_special_chars =
     ''()[]{}?*+-|^$.&~# '' @ [backslash, CHR 0x09, CHR 0x0A, CHR 0x0D, CHR 0x0B, CHR 0x0C]"

definition re_escape :: "string \<Rightarrow> string" where
  "re_escape s = concat (map (\<lambda>c. if c \<in> set re_special_chars then [backslash, c] else [c]) s)"

text \<open>
  \<open>re.sub(re.escape(sep) + "+", sep, name)\<close> for an ASCII separator that is not empty
  and has no backslash: the pattern is the separator with its last character repeated
  one or more times, matched greedily from the left, and the replacement is the
  separator as it stands. (A byte of the separator is then a character, and none of its
  bytes occurs inside another character of the name.)
\<close>

function collapse_runs :: "string \<Rightarrow> string \<Rightarrow> string" where
  "collapse_runs sep [] = []"
| "collapse_runs sep (c # cs) =
     (if sep \<noteq> [] \<and> startswith (c # cs) sep then
        sep @ collapse_runs sep (dropWhile (\<lambda>x. x = last sep) (drop (length sep) (c # cs)))
      else c # collapse_runs sep cs)"
  by pat_completeness auto
termination
proof (relation "measure (\<lambda>(sep, s). length s)")
  show "wf (measure (\<lambda>(sep, s). length s))" by simp
next
  fix sep :: string and c cs
  assume "sep \<noteq> [] \<and> startswith (c # cs) sep"
  then have pos: "0 < length sep" by simp
  have "length (dropWhile (\<lambda>x. x = last sep) (drop (length sep) (c # cs)))
          \<le> length (drop (length sep) (c # cs))"
    by (rule length_dropWhile_le)
  also have "\<dots> = Suc (length cs) - length sep" by simp
  also have "\<dots> < Suc (length cs)" using pos by arith
  finally show "((sep, dropWhile (\<lambda>x. x = last sep) (drop (length sep) (c # cs))), (sep, c # cs))
                  \<in> measure (\<lambda>(sep, s). length s)"
    by simp
next
  fix sep :: string and c cs
  show "((sep, cs), (sep, c # cs)) \<in> measure (\<lambda>(sep, s). length s)" by simp
qed

text \<open>
  For any other separator the substitution is the library's: the empty separator makes
  the pattern \<open>+\<close>, which \<open>re\<close> refuses; a backslash is read as an escape in the
  replacement; and the last character of a separator that is not ASCII is more than
  one byte.
\<close>

definition sub_separator :: "'w sys \<Rightarrow> string \<Rightarrow> string \<Rightarrow> exn + string" where
  "sub_separator S sep nm =
     (if sep \<noteq> [] \<and> ascii sep \<and> backslash \<notin> set sep then Inr (collapse_runs sep nm)
      else re_sub S (re_escape sep @ ''+'') sep nm)"

text \<open>\<open>name.strip(separator)\<close>\<close>

definition strip_separator :: "'w sys \<Rightarrow> string \<Rightarrow> string \<Rightarrow> string" where
  "strip_separator S sep nm = (if ascii sep then strip_chars sep nm else str_strip_chars S sep nm)"

text \<open>The three patterns of the \<open>replace\<close> step, as UTF-8.\<close>

definition pattern_parens :: string where
  "pattern_parens =
     [CHR 0xEF, CHR 0xBC, CHR 0x88] @ ''('' @ [backslash] @ ''d+)'' @ [CHR 0xEF, CHR 0xBC, CHR 0x89]
     @ ''|'' @ [backslash] @ ''(('' @ [backslash] @ ''d+)'' @ [backslash] @ '')''"

definition pattern_round :: string where
  "pattern_round =
     [backslash] @ ''s*'' @ [backslash] @ ''('' @ [backslash] @ ''d+'' @ [backslash] @ '')''
     @ [backslash] @ ''s*''"

definition pattern_square :: string where
  "pattern_square =
     [backslash] @ ''s*'' @ [backslash] @ ''['' @ [backslash] @ ''d+'' @ [backslash] @ '']''
     @ [backslash] @ ''s*''"

definition apply_replace :: "'w sys \<Rightarrow> string option \<Rightarrow> string \<Rightarrow> exn + string" where
  "apply_replace S rep nm =
     (case rep of
        None \<Rightarrow> Inr nm
      | Some r \<Rightarrow>
          if r = [] then Inr nm
          else
            (case re_sub S pattern_parens r nm of
               Inl e \<Rightarrow> Inl e
             | Inr n1 \<Rightarrow>
                 (case re_sub S pattern_round r n1 of
                    Inl e \<Rightarrow> Inl e
                  | Inr n2 \<Rightarrow> re_sub S pattern_square r n2)))"

text \<open>The file name \<open>Renamer.rename\<close> computes: \<open>f"{name}{ext}"\<close>.\<close>

definition new_name ::
  "'w sys \<Rightarrow> path \<Rightarrow> string option \<Rightarrow> string option \<Rightarrow> string option \<Rightarrow> string \<Rightarrow> exn + string" where
  "new_name S file_path rep pfx sfx sep =
     (case apply_replace S rep (path_stem file_path) of
        Inl e \<Rightarrow> Inl e
      | Inr n0 \<Rightarrow>
          (let n1 = (case pfx of None \<Rightarrow> n0 | Some p \<Rightarrow> if p \<noteq> [] then p @ sep @ n0 else n0);
               n2 = (case sfx of None \<Rightarrow> n1 | Some s \<Rightarrow> if s \<noteq> [] then n1 @ sep @ s else n1)
           in
             case sub_separator S sep n2 of
               Inl e \<Rightarrow> Inl e
             | Inr n3 \<Rightarrow> Inr (strip_separator S sep n3 @ path_suffix file_path)))"

definition renamer_rename ::
  "'w sys \<Rightarrow> 'w \<Rightarrow> path \<Rightarrow> string option \<Rightarrow> string option \<Rightarrow> string option \<Rightarrow> string
     \<Rightarrow> 'w \<times> (exn + path)" where
  "renamer_rename S w file_path rep pfx sfx sep =
     (case path_exists S w file_path of
        Inl e \<Rightarrow> (w, Inl e)
      | Inr ex \<Rightarrow>
          if \<not> ex then
            (w, Inl (Raised FileNotFoundError (''File not found: '' @ path_str file_path)))
          else
            (case new_name S file_path rep pfx sfx sep of
               Inl e \<Rightarrow> (w, Inl e)
             | Inr nm \<Rightarrow>
                 (let new_path = joinpath (path_parent file_path) nm in
                  if new_path \<noteq> file_path then
                    (case path_rename S w file_path new_path of
                       (w', Some e) \<Rightarrow> (w', Inl e)
                     | (w', None) \<Rightarrow> (w', Inr new_path))
                  else (w, Inr new_path))))"

section \<open>runner.py\<close>

text \<open>
  An \<open>Operation\<close> is built by the planner alone, which pairs each operation type with
  its own shape of \<open>details\<close>; the four shapes are the constructors below, and
  \<open>operation_type\<close> is read off the shape.
\<close>

datatype details =
    MoveDetails string bool "str_dict option"
  | RenameDetails "string option" "string option" "string option" string
  | TagDetails str_dict
  | DuplicateDetails "path list" duplicate_action

record operation =
  rule_name :: string
  source :: path
  details :: details
  executed :: bool
  success :: bool
  error :: "string option"

fun details_type :: "details \<Rightarrow> string" where
  "details_type (MoveDetails d c t) = ''move''"
| "details_type (RenameDetails r p s sep) = ''rename''"
| "details_type (TagDetails d) = ''tag''"
| "details_type (DuplicateDetails g a) = ''duplicate''"

definition operation_type :: "operation \<Rightarrow> string" where
  "operation_type op = details_type (details op)"

definition Operation :: "string \<Rightarrow> path \<Rightarrow> details \<Rightarrow> operation" where
  "Operation rn src d =
     \<lparr>rule_name = rn, source = src, details = d, executed = False, success = False, error = None\<rparr>"

record operation_result =
  operation :: operation
  timestamp :: nat

text \<open>
  The three messages \<open>execute\<close> gives to \<open>logging\<close>. The handler set up by the runner
  appends each as one line to the file \<open>operation.log\<close> of the log directory, which it
  keeps open.
\<close>

datatype log_entry = DryRunNotice | Success operation | Failed operation string

record runner =
  dry_run :: bool
  operations :: "operation list"
  results :: "operation_result list"

text \<open>The dict \<open>load_all_rules\<close> returns: the enabled rules of each of the four files.\<close>

record rule_set =
  move_rules :: "rule list"
  rename_rules :: "rule list"
  tag_rules :: "rule list"
  duplicate_rules :: "duplicate_rule list"

text \<open>
  The loop of \<open>_scan_directory\<close> over the paths the walk yields: \<open>is_file\<close> is asked
  of each in the world it is yielded in, and an exception it raises ends the scan there.
\<close>

fun scan_items ::
  "'w sys \<Rightarrow> 'w \<Rightarrow> ('w \<times> path) list \<Rightarrow> path list \<Rightarrow> 'w \<times> (exn + path list)" where
  "scan_items S w [] files = (w, Inr files)"
| "scan_items S w ((wi, item) # items) files =
     (case is_file S wi item of
        Inl e \<Rightarrow> (wi, Inl e)
      | Inr regular \<Rightarrow> scan_items S wi items (if regular then files @ [item] else files))"

definition scan_directory :: "'w sys \<Rightarrow> 'w \<Rightarrow> string \<Rightarrow> 'w \<times> (exn + path list)" where
  "scan_directory S w p =
     (let scan_path = path_of_string (expanduser S p) in
      case path_exists S w scan_path of
        Inl e \<Rightarrow> (w, Inl e)
      | Inr ex \<Rightarrow>
          if \<not> ex then (w, Inr [])
          else
            (case is_file S w scan_path of
               Inl e \<Rightarrow> (w, Inl e)
             | Inr regular \<Rightarrow>
                 if regular then (w, Inr [scan_path])
                 else
                   (case rglob S w scan_path of
                      (items, w_end, err) \<Rightarrow>
                        (case scan_items S w items [] of
                           (wi, Inl e) \<Rightarrow> (wi, Inl e)
                         | (wi, Inr files) \<Rightarrow>
                             (case err of
                                Some e \<Rightarrow> (w_end, Inl e)
                              | None \<Rightarrow> (w_end, Inr files))))))"

text \<open>
  The loop shared by the move, rename and tag planners: every file the condition
  matches gets one operation, appended to \<open>self.operations\<close>. \<open>mk\<close> builds the
  operation (for a move rule it expands the destination first, which can raise).
\<close>

fun plan_files ::
  "'w sys \<Rightarrow> 'w \<Rightarrow> rule \<Rightarrow> (path \<Rightarrow> exn + operation) \<Rightarrow> path list \<Rightarrow> operation list
     \<Rightarrow> exn + operation list" where
  "plan_files S w r mk [] ops = Inr ops"
| "plan_files S w r mk (file_path # files) ops =
     (case matches S w (condition r) file_path of
        Inl e \<Rightarrow> Inl e
      | Inr m \<Rightarrow>
          if m then
            (case mk file_path of
               Inl e \<Rightarrow> Inl e
             | Inr op \<Rightarrow> plan_files S w r mk files (ops @ [op]))
          else plan_files S w r mk files ops)"

definition move_operation :: "'w sys \<Rightarrow> rule \<Rightarrow> path \<Rightarrow> exn + operation" where
  "move_operation S r file_path =
     (case move (action r) of
        None \<Rightarrow> Inl (Raised TypeError ''expected str, bytes or os.PathLike object, not NoneType'')
      | Some m \<Rightarrow>
          Inr (Operation (name r) file_path
                 (MoveDetails (expanduser S m) (create_if_missing (action r)) (tag (action r)))))"

definition plan_move_operations ::
  "'w sys \<Rightarrow> 'w \<Rightarrow> rule \<Rightarrow> operation list \<Rightarrow> 'w \<times> (exn + operation list)" where
  "plan_move_operations S w r ops =
     (if \<not> truthy (path (condition r)) then (w, Inr ops)
      else
        (case scan_directory S w (case path (condition r) of Some p \<Rightarrow> p | None \<Rightarrow> []) of
           (w', Inl e) \<Rightarrow> (w', Inl e)
         | (w', Inr files) \<Rightarrow> (w', plan_files S w' r (move_operation S r) files ops)))"

text \<open>\<open>for scan_path in scan_paths\<close>, around the loop over the files of each.\<close>

fun plan_scan_paths ::
  "'w sys \<Rightarrow> 'w \<Rightarrow> rule \<Rightarrow> (path \<Rightarrow> exn + operation) \<Rightarrow> string list \<Rightarrow> operation list
     \<Rightarrow> 'w \<times> (exn + operation list)" where
  "plan_scan_paths S w r mk [] ops = (w, Inr ops)"
| "plan_scan_paths S w r mk (scan_path # scan_paths) ops =
     (case scan_directory S w scan_path of
        (w', Inl e) \<Rightarrow> (w', Inl e)
      | (w', Inr files) \<Rightarrow>
          (case plan_files S w' r mk files ops of
             Inl e \<Rightarrow> (w', Inl e)
           | Inr ops' \<Rightarrow> plan_scan_paths S w' r mk scan_paths ops'))"

definition rename_operation :: "rule \<Rightarrow> path \<Rightarrow> exn + operation" where
  "rename_operation r file_path =
     Inr (Operation (name r) file_path
            (RenameDetails (replace (action r)) (prefix (action r)) (suffix (action r))
               (separator (action r))))"

definition plan_rename_operations ::
  "'w sys \<Rightarrow> 'w \<Rightarrow> rule \<Rightarrow> operation list \<Rightarrow> 'w \<times> (exn + operation list)" where
  "plan_rename_operations S w r ops =
     plan_scan_paths S w r (rename_operation r)
       [expanduser S ''~/Downloads'', expanduser S ''~/Documents'', expanduser S ''~/Desktop''] ops"

definition tag_operation :: "rule \<Rightarrow> path \<Rightarrow> exn + operation" where
  "tag_operation r file_path =
     Inr (Operation (name r) file_path
            (TagDetails (case tag (action r) of None \<Rightarrow> [] | Some d \<Rightarrow> d)))"

definition plan_tag_operations ::
  "'w sys \<Rightarrow> 'w \<Rightarrow> rule \<Rightarrow> operation list \<Rightarrow> 'w \<times> (exn + operation list)" where
  "plan_tag_operations S w r ops =
     plan_scan_paths S w r (tag_operation r)
       [expanduser S ''~/Downloads'', expanduser S ''~/Documents'', expanduser S ''~/Desktop''] ops"

fun plan_groups :: "duplicate_rule \<Rightarrow> path list list \<Rightarrow> operation list \<Rightarrow> exn + operation list" where
  "plan_groups r [] ops = Inr ops"
| "plan_groups r (duplicate_group # groups) ops =
     (case duplicate_group of
        [] \<Rightarrow> Inl (Raised OtherException ''list index out of range'')
      | first # rest \<Rightarrow>
          plan_groups r groups
            (ops @ [Operation (dup_name r) first (DuplicateDetails duplicate_group (dup_action r))]))"

text \<open>\<open>for scan_path in scan_paths: all_files.extend(self._scan_directory(scan_path))\<close>\<close>

fun scan_all :: "'w sys \<Rightarrow> 'w \<Rightarrow> string list \<Rightarrow> path list \<Rightarrow> 'w \<times> (exn + path list)" where
  "scan_all S w [] all_files = (w, Inr all_files)"
| "scan_all S w (scan_path # scan_paths) all_files =
     (case scan_directory S w scan_path of
        (w', Inl e) \<Rightarrow> (w', Inl e)
      | (w', Inr files) \<Rightarrow> scan_all S w' scan_paths (all_files @ files))"

definition plan_duplicate_operations ::
  "'w sys \<Rightarrow> 'w \<Rightarrow> duplicate_rule \<Rightarrow> operation list \<Rightarrow> 'w \<times> (exn + operation list)" where
  "plan_duplicate_operations S w r ops =
     (case scan_all S w [expanduser S ''~/Downloads'', expanduser S ''~/Documents''] [] of
        (w1, Inl e) \<Rightarrow> (w1, Inl e)
      | (w1, Inr all_files) \<Rightarrow>
          (case find_duplicates S w1 all_files (check_by r) of
             (w2, Inl e) \<Rightarrow> (w2, Inl e)
           | (w2, Inr duplicates) \<Rightarrow> (w2, plan_groups r duplicates ops)))"

text \<open>\<open>for rule in rules.get(kind, []): plan(rule)\<close>\<close>

fun plan_rules ::
  "('w \<Rightarrow> 'r \<Rightarrow> operation list \<Rightarrow> 'w \<times> (exn + operation list)) \<Rightarrow> 'w \<Rightarrow> 'r list \<Rightarrow> operation list
     \<Rightarrow> 'w \<times> (exn + operation list)" where
  "plan_rules plan w [] ops = (w, Inr ops)"
| "plan_rules plan w (r # rs) ops =
     (case plan w r ops of
        (w', Inl e) \<Rightarrow> (w', Inl e)
      | (w', Inr ops') \<Rightarrow> plan_rules plan w' rs ops')"

text \<open>
  \<open>scan_and_plan\<close>, given the rules \<open>load_all_rules\<close> returned: the world after the
  scans, and the runner with its plan, or the exception that ended the planning.
\<close>

definition scan_and_plan :: "'w sys \<Rightarrow> 'w \<Rightarrow> rule_set \<Rightarrow> runner \<Rightarrow> 'w \<times> (exn + runner)" where
  "scan_and_plan S w rules rn =
     (case plan_rules (plan_move_operations S) w (move_rules rules) [] of
        (w1, Inl e) \<Rightarrow> (w1, Inl e)
      | (w1, Inr ops1) \<Rightarrow>
          (case plan_rules (plan_rename_operations S) w1 (rename_rules rules) ops1 of
             (w2, Inl e) \<Rightarrow> (w2, Inl e)
           | (w2, Inr ops2) \<Rightarrow>
               (case plan_rules (plan_tag_operations S) w2 (tag_rules rules) ops2 of
                  (w3, Inl e) \<Rightarrow> (w3, Inl e)
                | (w3, Inr ops3) \<Rightarrow>
                    (case plan_rules (plan_duplicate_operations S) w3 (duplicate_rules rules) ops3 of
                       (w4, Inl e) \<Rightarrow> (w4, Inl e)
                     | (w4, Inr ops4) \<Rightarrow> (w4, Inr (rn\<lparr>operations := ops4\<rparr>))))))"

subsection \<open>Execution\<close>

definition execute_move ::
  "'w sys \<Rightarrow> 'w \<Rightarrow> path \<Rightarrow> string \<Rightarrow> bool \<Rightarrow> str_dict option \<Rightarrow> 'w \<times> exn option" where
  "execute_move S w src destination cim tg =
     (let dest = path_of_string destination in
      case (if cim then mkdir_parents S w dest else (w, None)) of
        (w1, Some e) \<Rightarrow> (w1, Some e)
      | (w1, None) \<Rightarrow>
          (case mover_move S w1 src dest of
             (w2, Inl e) \<Rightarrow> (w2, Some e)
           | (w2, Inr moved) \<Rightarrow>
               if truthy tg then
                 (case add_tag_kwargs S w2 src (case tg of Some d \<Rightarrow> d | None \<Rightarrow> []) of
                    (w3, Inl e) \<Rightarrow> (w3, Some e)
                  | (w3, Inr tagged) \<Rightarrow> (w3, None))
               else (w2, None)))"

definition execute_rename ::
  "'w sys \<Rightarrow> 'w \<Rightarrow> path \<Rightarrow> string option \<Rightarrow> string option \<Rightarrow> string option \<Rightarrow> string
     \<Rightarrow> 'w \<times> exn option" where
  "execute_rename S w src rep pfx sfx sep =
     (case renamer_rename S w src rep pfx sfx sep of
        (w', Inl e) \<Rightarrow> (w', Some e)
      | (w', Inr p) \<Rightarrow> (w', None))"

definition execute_tag :: "'w sys \<Rightarrow> 'w \<Rightarrow> path \<Rightarrow> str_dict \<Rightarrow> 'w \<times> exn option" where
  "execute_tag S w src d =
     (case add_tag_kwargs S w src d of
        (w', Inl e) \<Rightarrow> (w', Some e)
      | (w', Inr tagged) \<Rightarrow> (w', None))"

text \<open>The default label of \<open>handle_duplicates\<close>, two CJK characters, as UTF-8.\<close>

definition default_duplicate_label :: string where
  "default_duplicate_label = [CHR 0xE9, CHR 0x87, CHR 0x8D, CHR 0xE5, CHR 0xA4, CHR 0x8D]"

definition execute_duplicate ::
  "'w sys \<Rightarrow> 'w \<Rightarrow> path list \<Rightarrow> duplicate_action \<Rightarrow> 'w \<times> exn option" where
  "execute_duplicate S w dups a =
     handle_duplicates S w dups
       (case keep a of None \<Rightarrow> ''newest'' | Some k \<Rightarrow> k)
       (case tag_duplicates a of None \<Rightarrow> False | Some t \<Rightarrow> t)
       (case duplicate_label a of None \<Rightarrow> default_duplicate_label | Some l \<Rightarrow> l)"

text \<open>The dispatch on the operation type inside the \<open>try\<close> of \<open>execute\<close>.\<close>

definition execute_operation :: "'w sys \<Rightarrow> 'w \<Rightarrow> operation \<Rightarrow> 'w \<times> exn option" where
  "execute_operation S w op =
     (case details op of
        MoveDetails destination cim tg \<Rightarrow> execute_move S w (source op) destination cim tg
      | RenameDetails rep pfx sfx sep \<Rightarrow> execute_rename S w (source op) rep pfx sfx sep
      | TagDetails d \<Rightarrow> execute_tag S w (source op) d
      | DuplicateDetails dups a \<Rightarrow> execute_duplicate S w dups a)"

text \<open>
  The loop of \<open>execute\<close>: the world after, the operations with their execution state
  set, the results and the log lines, in order.
\<close>

fun execute_loop ::
  "'w sys \<Rightarrow> 'w \<Rightarrow> operation list
     \<Rightarrow> 'w \<times> operation list \<times> operation_result list \<times> log_entry list" where
  "execute_loop S w [] = (w, [], [], [])"
| "execute_loop S w (op # ops) =
     (case execute_operation S w op of
        (w1, outcome) \<Rightarrow>
          (let op' =
                 (case outcome of
                    None \<Rightarrow> op\<lparr>executed := True, success := True\<rparr>
                  | Some e \<Rightarrow> op\<lparr>executed := True, success := False, error := Some (str_of_exn e)\<rparr>);
               entry = (case outcome of None \<Rightarrow> Success op' | Some e \<Rightarrow> Failed op' (str_of_exn e))
           in
             case datetime_now S w1 of
               (w2, t) \<Rightarrow>
                 (case execute_loop S w2 ops of
                    (w3, ops', res, lg) \<Rightarrow>
                      (w3, op' # ops', \<lparr>operation = op', timestamp = t\<rparr> # res, entry # lg))))"

text \<open>
  \<open>execute\<close>: the runner after the call, the list it returns, and the world after. The
  world \<open>execute\<close> works in is the world of the files and the lines of the log file.
\<close>

definition execute ::
  "'w sys \<Rightarrow> runner \<Rightarrow> 'w \<times> log_entry list
     \<Rightarrow> runner \<times> operation_result list \<times> ('w \<times> log_entry list)" where
  "execute S rn disk =
     (case disk of
        (w, log_file) \<Rightarrow>
          if dry_run rn then (rn, [], (w, log_file @ [DryRunNotice]))
          else
            (case execute_loop S w (operations rn) of
               (w', ops', res, lg) \<Rightarrow>
                 (rn\<lparr>operations := ops', results := res\<rparr>, res, (w', log_file @ lg))))"

section \<open>Notions used to state the properties\<close>

text \<open>The condition with every field unset.\<close>

definition unset_condition :: condition where
  "unset_condition =
     \<lparr>path = None, extension = None, pattern = None, size_gt = None, size_lt = None,
      name_pattern = None\<rparr>"

text \<open>The list a dict of lists holds under a key; empty when the key is absent.\<close>

definition group_of :: "('k \<times> 'v list) list \<Rightarrow> 'k \<Rightarrow> 'v list" where
  "group_of d k = (case map_of d k of None \<Rightarrow> [] | Some vs \<Rightarrow> vs)"

text \<open>A regular file whose content can be read and hashes to \<open>h\<close>.\<close>

definition has_hash :: "'w sys \<Rightarrow> 'w \<Rightarrow> string \<Rightarrow> path \<Rightarrow> bool" where
  "has_hash S w h f = (is_file S w f = Inr True \<and> snd (hash_file S w f) = Inr h)"

text \<open>A path as \<open>pathlib\<close> holds it: no part is empty, a dot, or has a slash in it.\<close>

definition wf_path :: "path \<Rightarrow> bool" where
  "wf_path p = list_all (\<lambda>c. c \<noteq> [] \<and> c \<noteq> ''.'' \<and> CHR ''/'' \<notin> set c) (path_parts p)"

text \<open>The files of a list that the condition of a rule matches.\<close>

definition matching :: "'w sys \<Rightarrow> 'w \<Rightarrow> rule \<Rightarrow> path list \<Rightarrow> path list" where
  "matching S w r files = filter (\<lambda>f. matches S w (condition r) f = Inr True) files"

text \<open>The condition of a rule gives an answer, not an exception, on every file of a list.\<close>

definition answers :: "'w sys \<Rightarrow> 'w \<Rightarrow> rule \<Rightarrow> path list \<Rightarrow> bool" where
  "answers S w r files = list_all (\<lambda>f. matches S w (condition r) f \<in> {Inr True, Inr False}) files"

text \<open>The keys a call \<open>add_tag(file_path, **kwargs)\<close> accepts.\<close>

definition tag_keys_ok :: "str_dict \<Rightarrow> bool" where
  "tag_keys_ok kw = list_all (\<lambda>k. k = ''color'' \<or> k = ''label'') (map fst kw)"

text \<open>
  An observation \<open>obs\<close> of the world, such as the content, name, place and tags of
  every file, that no reading of a directory tree or of a file's content changes.
\<close>

definition reads_keep :: "'w sys \<Rightarrow> ('w \<Rightarrow> 'o) \<Rightarrow> bool" where
  "reads_keep S obs =
     ((\<forall>w p. obs (fst (read_bytes S w p)) = obs w)
      \<and> (\<forall>w p. list_all (\<lambda>y. obs (fst y) = obs w) (fst (rglob S w p))
                 \<and> obs (fst (snd (rglob S w p))) = obs w))"

text \<open>An observation of the world that no external program started by the tagger changes.\<close>

definition programs_keep :: "'w sys \<Rightarrow> ('w \<Rightarrow> 'o) \<Rightarrow> bool" where
  "programs_keep S obs = (\<forall>w c. obs (fst (subprocess_run S w c)) = obs w)"

section \<open>A small world to run the model in\<close>

text \<open>
  The world is the list of the files that exist, with the number of reads made so far
  (which stands for the access times). A directory exists when a file lies under it.
  A path with a component of more than 255 bytes makes every call of the \<open>stat\<close> family
  raise \<open>OSError\<close>, as on Linux. A file holds its own name as content, is as many bytes
  long as its name, and was modified at that time; the platform is Linux, every regex
  matches, and every external program succeeds. No text of the small world has a
  character outside ASCII, so the interpreter's part for such text is never asked: the
  record gives the text back as it is and reads no number from it.
\<close>

type_synonym small_world = "path list \<times> nat"

definition under :: "path \<Rightarrow> path \<Rightarrow> bool" where
  "under d p = (path_root p = path_root d \<and> p \<noteq> d
                 \<and> take (length (path_parts d)) (path_parts p) = path_parts d)"

definition no_such_file :: exn where
  "no_such_file = Raised FileNotFoundError ''No such file or directory''"

definition name_too_long :: exn where
  "name_too_long = Raised OSError ''File name too long''"

definition too_long :: "path \<Rightarrow> bool" where
  "too_long p = list_ex (\<lambda>c. 255 < length c) (path_parts p)"

definition no_unicode :: exn where
  "no_unicode = Raised ValueError ''not a number''"

definition demo_sys :: "small_world sys" where
  "demo_sys =
     \<lparr>float_round = Finite,
      str_strip = (\<lambda>s. s),
      str_upper = (\<lambda>s. s),
      str_lower = (\<lambda>s. s),
      str_strip_chars = (\<lambda>cs s. s),
      float_of_str = (\<lambda>s. Inl no_unicode),
      int_of_str = (\<lambda>s. Inl no_unicode),
      expanduser = (\<lambda>s. s),
      platform_system = ''Linux'',
      re_search = (\<lambda>p s. Inr True),
      re_sub = (\<lambda>p r s. Inr s),
      sha256_hexdigest = (\<lambda>b. b),
      plist_base64 = (\<lambda>ts. Inr (concat ts)),
      unexpected_keyword = (\<lambda>ks. ''unexpected keyword argument''),
      path_exists = (\<lambda>w p. if too_long p then Inl name_too_long
                            else Inr (p \<in> set (fst w) \<or> list_ex (under p) (fst w))),
      is_file = (\<lambda>w p. if too_long p then Inl name_too_long else Inr (p \<in> set (fst w))),
      is_dir = (\<lambda>w p. if too_long p then Inl name_too_long else Inr (list_ex (under p) (fst w))),
      stat_size = (\<lambda>w p. if too_long p then Inl name_too_long
                          else if p \<in> set (fst w) then Inr (length (path_name p)) else Inl no_such_file),
      stat_mtime = (\<lambda>w p. if too_long p then Inl name_too_long
                           else if p \<in> set (fst w) then Inr (of_nat (length (path_name p)))
                           else Inl no_such_file),
      resolve = (\<lambda>w p. Inr p),
      rglob = (\<lambda>w d. (map (\<lambda>p. ((fst w, Suc (snd w)), p)) (filter (under d) (fst w)),
                       (fst w, Suc (snd w)), None)),
      read_bytes = (\<lambda>w p. ((fst w, Suc (snd w)),
                            if p \<in> set (fst w) then Inr (path_name p) else Inl no_such_file)),
      mkdir_parents = (\<lambda>w p. (w, None)),
      shutil_move = (\<lambda>w s d. if path_of_string s \<in> set (fst w)
                              then ((map (\<lambda>p. if p = path_of_string s then path_of_string d else p) (fst w),
                                     snd w), None)
                              else (w, Some no_such_file)),
      path_rename = (\<lambda>w p q. if p \<in> set (fst w)
                              then ((map (\<lambda>x. if x = p then q else x) (fst w), snd w), None)
                              else (w, Some no_such_file)),
      path_unlink = (\<lambda>w p. if p \<in> set (fst w) then ((removeAll p (fst w), snd w), None)
                            else (w, Some no_such_file)),
      subprocess_run = (\<lambda>w c. (w, Inr 0)),
      datetime_now = (\<lambda>w. (w, length (fst w)))\<rparr>"

text \<open>The same on macOS.\<close>

definition mac_sys :: "small_world sys" where
  "mac_sys = demo_sys\<lparr>platform_system := ''Darwin''\<rparr>"

text \<open>
  Two files with the same content and a third, for the deduplicator; and a path whose
  name is 300 bytes long.
\<close>

definition demo_files :: "path list" where
  "demo_files = [Path ''/'' [''a'', ''x.txt''], Path ''/'' [''b'', ''x.txt''], Path ''/'' [''a'', ''yy.txt'']]"

definition long_path :: path where
  "long_path = Path ''/'' [''a'', replicate 300 CHR ''x'']"

text \<open>
  A home with a PDF and a text file, and a PDF in \<open>/tmp\<close>; the same after the PDF of
  \<open>/tmp\<close> has been moved to \<open>/dst\<close>.
\<close>

definition demo_world :: "path list" where
  "demo_world = [Path [] [''~'', ''Downloads'', ''a.pdf''], Path [] [''~'', ''Desktop'', ''b.txt''],
                 Path ''/'' [''tmp'', ''c.pdf'']]"

definition moved_world :: "path list" where
  "moved_world = [Path [] [''~'', ''Downloads'', ''a.pdf''], Path [] [''~'', ''Desktop'', ''b.txt''],
                  Path ''/'' [''dst'', ''c.pdf'']]"

text \<open>
  A rule for PDF files, with or without a path, and a rule set that has the rule for
  \<open>/tmp\<close> as its one move rule and as its one rename rule.
\<close>

definition demo_action :: action where
  "demo_action =
     \<lparr>move = Some ''/dst'', create_if_missing = False, rename = None, replace = None,
      prefix = Some ''IMG'', suffix = None, separator = ''-'', tag = None\<rparr>"

definition pdf_rule :: "string option \<Rightarrow> rule" where
  "pdf_rule p =
     \<lparr>name = ''pdfs'', condition = unset_condition\<lparr>path := p, extension := Some [''pdf'']\<rparr>,
      action = demo_action, enabled = True\<rparr>"

definition demo_rules :: rule_set where
  "demo_rules =
     \<lparr>move_rules = [pdf_rule (Some ''/tmp'')], rename_rules = [pdf_rule (Some ''/tmp'')],
      tag_rules = [], duplicate_rules = []\<rparr>"

text \<open>
  A runner with two renames planned, the first for a file that is not there; a runner
  in dry-run mode; and a move to \<open>/dst/c.pdf\<close> that carries a tag.
\<close>

definition demo_runner :: runner where
  "demo_runner =
     \<lparr>dry_run = False,
      operations =
        [Operation ''r1'' (Path ''/'' [''pics'', ''gone.png'']) (RenameDetails None (Some ''IMG'') None ''-''),
         Operation ''r1'' (Path ''/'' [''pics'', ''vacation.png'']) (RenameDetails None (Some ''IMG'') None ''-'')],
      results = []\<rparr>"

definition preview_runner :: runner where
  "preview_runner = \<lparr>dry_run = True, operations = [], results = []\<rparr>"

definition tagged_move :: "str_dict \<Rightarrow> operation" where
  "tagged_move kw =
     Operation ''m'' (Path ''/'' [''tmp'', ''c.pdf'']) (MoveDetails ''/dst/c.pdf'' False (Some kw))"

section \<open>Properties\<close>

lemmas string_defs = ascii_def strip_def ascii_strip_def upper_def ascii_upper_def upper_char_def
  lower_def ascii_lower_def lower_char_def is_space_def
  ascii_lowercase_def ascii_uppercase_def endswith_def startswith_def is_digit_def

text \<open>The calls of the small world, for evaluating the model in it.\<close>

lemma demo_sys_sel [simp]:
  "float_round demo_sys = Finite"
  "str_strip demo_sys = (\<lambda>s. s)"
  "str_upper demo_sys = (\<lambda>s. s)"
  "str_lower demo_sys = (\<lambda>s. s)"
  "str_strip_chars demo_sys = (\<lambda>cs s. s)"
  "float_of_str demo_sys = (\<lambda>s. Inl no_unicode)"
  "int_of_str demo_sys = (\<lambda>s. Inl no_unicode)"
  "expanduser demo_sys = (\<lambda>s. s)"
  "platform_system demo_sys = ''Linux''"
  "re_search demo_sys = (\<lambda>p s. Inr True)"
  "re_sub demo_sys = (\<lambda>p r s. Inr s)"
  "sha256_hexdigest demo_sys = (\<lambda>b. b)"
  "plist_base64 demo_sys = (\<lambda>ts. Inr (concat ts))"
  "unexpected_keyword demo_sys = (\<lambda>ks. ''unexpected keyword argument'')"
  "path_exists demo_sys w p = (if too_long p then Inl name_too_long
                               else Inr (p \<in> set (fst w) \<or> list_ex (under p) (fst w)))"
  "is_file demo_sys w p = (if too_long p then Inl name_too_long else Inr (p \<in> set (fst w)))"
  "is_dir demo_sys w p = (if too_long p then Inl name_too_long else Inr (list_ex (under p) (fst w)))"
  "stat_size demo_sys w p = (if too_long p then Inl name_too_long
                             else if p \<in> set (fst w) then Inr (length (path_name p)) else Inl no_such_file)"
  "stat_mtime demo_sys w p = (if too_long p then Inl name_too_long
                              else if p \<in> set (fst w) then Inr (of_nat (length (path_name p)))
                              else Inl no_such_file)"
  "resolve demo_sys w p = Inr p"
  "rglob demo_sys w d = (map (\<lambda>p. ((fst w, Suc (snd w)), p)) (filter (under d) (fst w)),
                         (fst w, Suc (snd w)), None)"
  "read_bytes demo_sys w p = ((fst w, Suc (snd w)),
                              if p \<in> set (fst w) then Inr (path_name p) else Inl no_such_file)"
  "mkdir_parents demo_sys w p = (w, None)"
  "shutil_move demo_sys w s t = (if path_of_string s \<in> set (fst w)
                              then ((map (\<lambda>p. if p = path_of_string s then path_of_string t else p) (fst w),
                                     snd w), None)
                              else (w, Some no_such_file))"
  "path_rename demo_sys w p q = (if p \<in> set (fst w)
                              then ((map (\<lambda>x. if x = p then q else x) (fst w), snd w), None)
                              else (w, Some no_such_file))"
  "path_unlink demo_sys w p = (if p \<in> set (fst w) then ((removeAll p (fst w), snd w), None)
                               else (w, Some no_such_file))"
  "subprocess_run demo_sys w c = (w, Inr 0)"
  "datetime_now demo_sys w = (w, length (fst w))"
  by (simp_all add: demo_sys_def)

subsection \<open>parse_size\<close>

text \<open>
  Every unit ends in the letter B, and B is the first key of \<open>units\<close>: a string with
  the unit KB, MB, GB or TB takes the branch of B, where \<open>float\<close> meets the letter
  left in front of the B and raises \<open>ValueError\<close>; the \<open>break\<close> then leaves the loop,
  \<open>int\<close> of the whole string raises as well, and the result is 0.
\<close>

lemma parse_size_digits_unit:
  "parse_size fl ''7'' = Inr 7 \<and> parse_size fl ''abc'' = Inr 0
   \<and> parse_size fl ''2KB'' = Inr 0 \<and> parse_size fl ''1GB'' = Inr 0 \<and> parse_size fl ''3TB'' = Inr 0
   \<and> parse_size fl ''infB'' = Inl (Raised OverflowError ''cannot convert float infinity to integer'')"
  by (simp add: parse_size_def units_def py_float_def floatnumber_def number_def exponent_def
      py_int_def is_ValueError_def int_of_digits_def digit_val_def string_defs)

text \<open>
  What \<open>float\<close> and \<open>int\<close> accept ends in a digit (or, for a float, in a dot or
  in the last letter of \<open>inf\<close>, \<open>infinity\<close> or \<open>nan\<close>): a string that ends in one
  of the letters K, M, G, T is refused by \<open>float\<close>, one that ends in B by \<open>int\<close>.
\<close>

lemma digit_run_consumed:
  "digit_run acc cs = (ds, rest) \<Longrightarrow>
     \<exists>used. cs = used @ rest \<and> (used \<noteq> [] \<longrightarrow> is_digit (last used))"
proof (induction acc cs arbitrary: ds rest rule: digit_run.induct)
  case (1 acc)
  then show ?case by simp
next
  case (2 acc c)
  then show ?case by (auto split: if_splits)
next
  case (3 acc c d cs)
  show ?case
  proof (cases "is_digit c")
    case True
    with "3.prems" have "digit_run (acc @ [c]) (d # cs) = (ds, rest)" by simp
    from "3.IH"(1) [OF True this] obtain used where
      u: "d # cs = used @ rest" "used \<noteq> [] \<longrightarrow> is_digit (last used)" by blast
    have "c # d # cs = (c # used) @ rest" using u(1) by simp
    moreover have "is_digit (last (c # used))" using u(2) True by simp
    ultimately show ?thesis by blast
  next
    case False
    show ?thesis
    proof (cases "c = CHR ''_'' \<and> is_digit d")
      case True
      with False "3.prems" have "digit_run (acc @ [d]) cs = (ds, rest)" by simp
      from "3.IH"(2) [OF False True this] obtain used where
        u: "cs = used @ rest" "used \<noteq> [] \<longrightarrow> is_digit (last used)" by blast
      have "c # d # cs = (c # d # used) @ rest" using u(1) by simp
      moreover have "is_digit (last (c # d # used))" using u(2) True by simp
      ultimately show ?thesis by blast
    next
      case no: False
      with False "3.prems" have "rest = c # d # cs" by auto
      then show ?thesis by simp
    qed
  qed
qed

lemma digitpart_consumed:
  assumes "digitpart s = Some (ds, rest)"
  shows "\<exists>used. s = used @ rest \<and> used \<noteq> [] \<and> is_digit (last used)"
proof (cases s)
  case Nil
  with assms show ?thesis by simp
next
  case (Cons c cs)
  with assms have c: "is_digit c" and run: "digit_run [c] cs = (ds, rest)"
    by (auto split: if_splits)
  from digit_run_consumed [OF run] obtain used where
    u: "cs = used @ rest" "used \<noteq> [] \<longrightarrow> is_digit (last used)" by blast
  have "s = (c # used) @ rest" using Cons u(1) by simp
  moreover have "is_digit (last (c # used))" using u(2) c by simp
  ultimately show ?thesis by blast
qed

lemma digitpart_whole:
  "digitpart s = Some (ds, []) \<Longrightarrow> s \<noteq> [] \<and> is_digit (last s)"
  using digitpart_consumed [of s ds "[]"] by auto

lemma number_consumed:
  assumes "number s = Some (ip, fp, r)"
  shows "\<exists>used. s = used @ r \<and> used \<noteq> [] \<and> (is_digit (last used) \<or> last used = CHR ''.'')"
proof (cases "digitpart s")
  case None
  with assms obtain r' where s: "s = CHR ''.'' # r'" and fpd: "digitpart r' = Some (fp, r)"
    by (auto simp: number_def split: list.splits if_splits option.splits)
  from digitpart_consumed [OF fpd] obtain used where
    u: "r' = used @ r" "used \<noteq> []" "is_digit (last used)" by blast
  have "s = (CHR ''.'' # used) @ r" using s u(1) by simp
  moreover have "is_digit (last (CHR ''.'' # used))" using u(2,3) by simp
  ultimately show ?thesis by blast
next
  case (Some a)
  then obtain ip' r0 where ipd: "digitpart s = Some (ip', r0)" by (cases a) auto
  from digitpart_consumed [OF ipd] obtain used where
    u: "s = used @ r0" "used \<noteq> []" "is_digit (last used)" by blast
  show ?thesis
  proof (cases r0)
    case Nil
    with assms ipd have "r = []" by (simp add: number_def)
    with u Nil show ?thesis by auto
  next
    case (Cons c r')
    show ?thesis
    proof (cases "c = CHR ''.''")
      case False
      with assms ipd Cons have "r = r0" by (simp add: number_def)
      with u show ?thesis by auto
    next
      case True
      show ?thesis
      proof (cases "digitpart r'")
        case None
        with assms ipd Cons True have "r = r'" by (simp add: number_def)
        then have "s = (used @ [CHR ''.'']) @ r" using u(1) Cons True by simp
        then show ?thesis by (intro exI [of _ "used @ [CHR ''.'']"]) simp
      next
        case (Some b)
        then obtain fp' r2 where fpd: "digitpart r' = Some (fp', r2)" by (cases b) auto
        with assms ipd Cons True have "r = r2" by (simp add: number_def)
        from digitpart_consumed [OF fpd] obtain used2 where
          v: "r' = used2 @ r2" "used2 \<noteq> []" "is_digit (last used2)" by blast
        have "s = (used @ CHR ''.'' # used2) @ r" using u(1) Cons True v(1) \<open>r = r2\<close> by simp
        moreover have "is_digit (last (used @ CHR ''.'' # used2))" using v(2,3) by simp
        ultimately show ?thesis by blast
      qed
    qed
  qed
qed

lemma exponent_end:
  assumes "exponent r = Some ex"
  shows "r = [] \<or> is_digit (last r)"
proof (cases r)
  case Nil
  then show ?thesis by simp
next
  case (Cons c r')
  with assms obtain neg r2 ds where
    sg: "split_sign r' = (neg, r2)" and dp: "digitpart r2 = Some (ds, [])"
    by (auto simp: exponent_def split: if_splits prod.splits option.splits)
  from digitpart_whole [OF dp] have r2: "r2 \<noteq> []" "is_digit (last r2)" by simp_all
  from sg have "r' = r2 \<or> (\<exists>x. r' = x # r2)" by (cases r') (auto split: if_splits)
  with r2 Cons have "is_digit (last r)" by auto
  then show ?thesis ..
qed

lemma floatnumber_end:
  assumes "floatnumber s = Some q"
  shows "s \<noteq> [] \<and> (is_digit (last s) \<or> last s = CHR ''.'')"
proof -
  from assms obtain ip fp r ex where n: "number s = Some (ip, fp, r)" and e: "exponent r = Some ex"
    by (auto simp: floatnumber_def split: option.splits)
  from number_consumed [OF n] obtain used where
    u: "s = used @ r" "used \<noteq> []" "is_digit (last used) \<or> last used = CHR ''.''" by blast
  from exponent_end [OF e] u show ?thesis by (cases "r = []") auto
qed

lemma dropWhile_keeps_last:
  "xs \<noteq> [] \<Longrightarrow> \<not> P (last xs) \<Longrightarrow> dropWhile P xs \<noteq> [] \<and> last (dropWhile P xs) = last xs"
  by (induction xs) (auto split: if_splits)

lemma strip_keeps_last:
  assumes "x \<noteq> []" and "\<not> is_space (last x)"
  shows "ascii_strip x \<noteq> [] \<and> last (ascii_strip x) = last x"
proof -
  let ?a = "dropWhile is_space x"
  from dropWhile_keeps_last [where P = is_space, OF assms] have a: "?a \<noteq> []" "last ?a = last x" by simp_all
  then have "\<not> is_space (hd (rev ?a))" using assms(2) by (simp add: hd_rev)
  then have "dropWhile is_space (rev ?a) = rev ?a" using a(1) by (cases "rev ?a") auto
  then show ?thesis using a by (simp add: ascii_strip_def)
qed

lemma split_sign_keeps_last:
  assumes "t \<noteq> []" and "last t \<noteq> CHR ''-''" and "last t \<noteq> CHR ''+''" and "split_sign t = (neg, u)"
  shows "u \<noteq> [] \<and> last u = last t"
proof (cases t)
  case Nil
  with assms show ?thesis by simp
next
  case (Cons c cs)
  show ?thesis
  proof (cases cs)
    case Nil
    with Cons assms show ?thesis by auto
  next
    case (Cons d ds)
    with \<open>t = c # cs\<close> assms(4) show ?thesis by (auto split: if_splits)
  qed
qed

lemma py_float_unit_letter:
  assumes "c \<in> set ''KMGT''" and "ascii body"
  shows "py_float fl (body @ [c]) = Inl (Raised ValueError ''could not convert string to float'')"
proof -
  have nsp: "\<not> is_space c" and nsign: "c \<noteq> CHR ''-''" "c \<noteq> CHR ''+''"
    and ndig: "\<not> is_digit c" "c \<noteq> CHR ''.''"
    and low: "lower_char c \<in> set ''kmgt''"
    and asc: "\<not> digit7 c"
  proof -
    from assms have "c = CHR ''K'' \<or> c = CHR ''M'' \<or> c = CHR ''G'' \<or> c = CHR ''T''" by simp
    then show "\<not> is_space c" "c \<noteq> CHR ''-''" "c \<noteq> CHR ''+''" "\<not> is_digit c" "c \<noteq> CHR ''.''"
      "lower_char c \<in> set ''kmgt''" "\<not> digit7 c"
      by (elim disjE; simp add: is_space_def is_digit_def lower_char_def ascii_lowercase_def
          ascii_uppercase_def)+
  qed
  have whole: "ascii (body @ [c])" using assms(2) asc by (simp add: ascii_def)
  from strip_keeps_last [of "body @ [c]"] nsp
  have st: "ascii_strip (body @ [c]) \<noteq> []" "last (ascii_strip (body @ [c])) = c" by simp_all
  obtain neg u where sg: "split_sign (ascii_strip (body @ [c])) = (neg, u)" by (cases "split_sign (ascii_strip (body @ [c]))")
  from split_sign_keeps_last [OF st(1) _ _ sg] st(2) nsign have u: "u \<noteq> []" "last u = c" by simp_all
  have "last (ascii_lower u) = lower_char c" using u by (simp add: ascii_lower_def last_map)
  then have "last (ascii_lower u) \<in> set ''kmgt''" using low by simp
  then have "ascii_lower u \<noteq> ''inf''" "ascii_lower u \<noteq> ''infinity''" "ascii_lower u \<noteq> ''nan''" by auto
  moreover have "floatnumber u = None"
  proof (cases "floatnumber u")
    case (Some q)
    from floatnumber_end [OF Some] u ndig show ?thesis by simp
  qed simp
  ultimately show ?thesis using sg whole by (simp add: py_float_def)
qed

lemma py_int_letter:
  assumes "\<not> is_digit c" and "\<not> is_space c" and "c \<noteq> CHR ''-''" and "c \<noteq> CHR ''+''"
    and "ascii (body @ [c])"
  shows "py_int fl (body @ [c]) = Inl (Raised ValueError ''invalid literal for int() with base 10'')"
proof -
  from strip_keeps_last [of "body @ [c]"] assms(2)
  have st: "ascii_strip (body @ [c]) \<noteq> []" "last (ascii_strip (body @ [c])) = c" by simp_all
  obtain neg u where sg: "split_sign (ascii_strip (body @ [c])) = (neg, u)" by (cases "split_sign (ascii_strip (body @ [c]))")
  from split_sign_keeps_last [OF st(1) _ _ sg] st(2) assms(3,4) have u: "u \<noteq> []" "last u = c" by simp_all
  have "\<And>ds. digitpart u \<noteq> Some (ds, [])"
  proof
    fix ds assume "digitpart u = Some (ds, [])"
    from digitpart_whole [OF this] u assms(1) show False by simp
  qed
  then show ?thesis using sg assms(5) by (auto simp: py_int_def split: option.splits)
qed

text \<open>
  So every string that, stripped and upper-cased, ends in KB, MB, GB or TB is parsed
  to 0, whatever ASCII text stands in front of the unit.
\<close>

lemma parse_size_larger_units_zero:
  assumes "upper fl (strip fl s) = body @ [c, CHR ''B'']" and "c \<in> set ''KMGT''" and "ascii body"
  shows "parse_size fl s = Inr 0"
proof -
  let ?t = "body @ [c, CHR ''B'']"
  have ends: "endswith ?t ''B''" by (simp add: endswith_def)
  have cut: "take (Suc (length body)) ?t = body @ [c]" by simp
  have "parse_size_loop fl ?t units = None"
    using ends py_float_unit_letter [OF assms(2,3), of fl]
    by (simp add: units_def cut is_ValueError_def del: take_append take_Suc_Cons)
  moreover have "ascii ?t"
  proof -
    from assms(2) have "c = CHR ''K'' \<or> c = CHR ''M'' \<or> c = CHR ''G'' \<or> c = CHR ''T''" by simp
    then have "\<not> digit7 c" by (elim disjE; simp)
    then show ?thesis using assms(3) by (simp add: ascii_def)
  qed
  then have "py_int fl ?t = Inl (Raised ValueError ''invalid literal for int() with base 10'')"
    using py_int_letter [of "CHR ''B''" "body @ [c]" fl] by (simp add: is_digit_def is_space_def)
  ultimately show ?thesis using assms(1) by (simp add: parse_size_def is_ValueError_def)
qed

text \<open>
  C1. The claim says that \<open>parse_size\<close> of a number followed by MB is the number
  times \<open>1024\<^sup>2\<close>. The code returns 0 for \<open>100MB\<close>, whatever the rounding of floats.
\<close>

theorem parse_size_100MB: "parse_size fl ''100MB'' = Inr 0"
  by (simp add: parse_size_def units_def py_float_def floatnumber_def number_def exponent_def
      py_int_def is_ValueError_def string_defs)

subsection \<open>Condition.matches\<close>

lemma search_name_stat_size [simp]:
  "search_name (S\<lparr>stat_size := st\<rparr>) pat f = search_name S pat f"
  by (simp add: search_name_def split: option.splits)

lemma lower_stat_size [simp]: "lower (S\<lparr>stat_size := st\<rparr>) s = lower S s"
  by (simp add: lower_def)

text \<open>
  C9. A condition with every field unset matches every file: the result is \<open>True\<close>,
  no exception is raised and the file is not inspected.
\<close>

theorem matches_all_unset: "matches S w unset_condition file_path = Inr True"
  by (simp add: matches_def search_name_def unset_condition_def)

text \<open>
  C10. When \<open>size_gt\<close> and \<open>size_lt\<close> are each unset or 0, \<open>matches\<close> gives the result
  it gives with both bounds removed, whatever \<open>stat\<close> would answer and whatever the
  world is: the size block is not entered. In particular the condition parsed from
  \<open>size_gt: "abc"\<close> has the bound 0 and matches every file, the empty ones included.
\<close>

theorem matches_zero_sizes_skip:
  assumes "size_gt c = None \<or> size_gt c = Some 0"
    and "size_lt c = None \<or> size_lt c = Some 0"
  shows "matches S w c f = matches (S\<lparr>stat_size := st\<rparr>) w' (c\<lparr>size_gt := None, size_lt := None\<rparr>) f
    \<and> (case parse_condition fl \<lparr>cd_path = None, cd_extension = None, cd_pattern = None,
           cd_name_pattern = None, cd_size_gt = Some (YStr ''abc''), cd_size_lt = None\<rparr> of
          Inl e \<Rightarrow> False
        | Inr c0 \<Rightarrow> size_gt c0 = Some 0 \<and> matches S w c0 f = Inr True)"
proof
  have gt: "\<not> truthy_int (size_gt c)" using assms(1) by auto
  have lt: "\<not> truthy_int (size_lt c)" using assms(2) by auto
  show "matches S w c f = matches (S\<lparr>stat_size := st\<rparr>) w' (c\<lparr>size_gt := None, size_lt := None\<rparr>) f"
    using gt lt by (simp add: matches_def split: sum.splits)
next
  have "parse_size fl ''abc'' = Inr 0"
    by (simp add: parse_size_def units_def py_int_def is_ValueError_def string_defs)
  then show "case parse_condition fl \<lparr>cd_path = None, cd_extension = None, cd_pattern = None,
           cd_name_pattern = None, cd_size_gt = Some (YStr ''abc''), cd_size_lt = None\<rparr> of
          Inl e \<Rightarrow> False
        | Inr c0 \<Rightarrow> size_gt c0 = Some 0 \<and> matches S w c0 f = Inr True"
    by (simp add: parse_condition_def matches_def search_name_def)
qed

text \<open>C10, in the small world: a condition with \<open>size_gt = 0\<close> matches a file whose \<open>stat\<close> would fail.\<close>

theorem matches_zero_sizes_skip_witness:
  "(size_gt (unset_condition\<lparr>extension := Some [''txt''], size_gt := Some 0\<rparr>) = None
      \<or> size_gt (unset_condition\<lparr>extension := Some [''txt''], size_gt := Some 0\<rparr>) = Some 0)
   \<and> (size_lt (unset_condition\<lparr>extension := Some [''txt''], size_gt := Some 0\<rparr>) = None
      \<or> size_lt (unset_condition\<lparr>extension := Some [''txt''], size_gt := Some 0\<rparr>) = Some 0)
   \<and> stat_size demo_sys ([], 0) (Path ''/'' [''a.txt'']) = Inl no_such_file
   \<and> matches demo_sys ([], 0) (unset_condition\<lparr>extension := Some [''txt''], size_gt := Some 0\<rparr>)
        (Path ''/'' [''a.txt'']) = Inr True"
proof -
  let ?c = "unset_condition\<lparr>extension := Some [''txt''], size_gt := Some 0\<rparr>"
  have h1: "size_gt ?c = None \<or> size_gt ?c = Some 0" by simp
  have h2: "size_lt ?c = None \<or> size_lt ?c = Some 0" by (simp add: unset_condition_def)
  have run: "matches (demo_sys\<lparr>stat_size := stat_size demo_sys\<rparr>) ([], 0)
               (?c\<lparr>size_gt := None, size_lt := None\<rparr>) (Path ''/'' [''a.txt'']) = Inr True"
    by (simp add: matches_def search_name_def unset_condition_def demo_sys_def path_suffix_def
        path_name_def rfind_dot_def lstrip_chars_def string_defs)
  from matches_zero_sizes_skip [OF h1 h2, where S = demo_sys and w = "([], 0)" and f = "Path ''/'' [''a.txt'']"
      and st = "stat_size demo_sys" and w' = "([], 0)" and fl = demo_sys]
  have "matches demo_sys ([], 0) ?c (Path ''/'' [''a.txt'']) = Inr True"
    using run by simp
  then show ?thesis using h1 h2 by (simp add: too_long_def)
qed


subsection \<open>Deduplicator.find_duplicates\<close>

lemma hash_chunks_concat: "0 < n \<Longrightarrow> hash_chunks n hasher rest = hasher @ rest"
proof (induction n hasher rest rule: hash_chunks.induct)
  case (1 n hasher rest)
  show ?case
  proof (cases "take n rest = []")
    case True
    then have "rest = []" using "1.prems" by (cases rest) auto
    then show ?thesis by (subst hash_chunks.simps) simp
  next
    case False
    then have "hash_chunks n hasher rest = hash_chunks n (hasher @ take n rest) (drop n rest)"
      by (subst hash_chunks.simps) (simp add: Let_def)
    also have "\<dots> = (hasher @ take n rest) @ drop n rest"
      using "1.IH" [OF refl False] "1.prems" by simp
    finally show ?thesis by simp
  qed
qed

lemma hash_file_whole:
  "hash_file S w p =
     (case read_bytes S w p of
        (w', Inl e) \<Rightarrow> (w', Inl e)
      | (w', Inr content) \<Rightarrow> (w', Inr (sha256_hexdigest S content)))"
  by (simp add: hash_file_def hash_chunks_concat split: prod.splits sum.splits)

text \<open>Whenever \<open>find_duplicates\<close> returns, every group it returns has at least two members.\<close>

lemma find_duplicates_groups_of_two:
  assumes "find_duplicates S w files chk = (w', Inr groups)" and "g \<in> set groups"
  shows "2 \<le> length g"
  using assms
  by (auto simp: find_duplicates_def find_by_name_def find_by_content_def multi_groups_def
      split: if_splits prod.splits sum.splits)

text \<open>
  An entry for which \<open>is_file\<close> raises ends the whole call, whatever was grouped before
  it: the exception leaves the loop from outside the \<open>try\<close>.
\<close>

lemma find_by_content_loop_raises:
  "is_file S w f = Inl e \<Longrightarrow> find_by_content_loop S w d (f # files) = (w, Inl e)"
  by simp

text \<open>Reading a file changes nothing that readings leave as it is.\<close>

lemma hash_file_keeps:
  assumes "reads_keep S obs"
  shows "obs (fst (hash_file S w p)) = obs w"
proof -
  from assms have "obs (fst (read_bytes S w p)) = obs w" by (simp add: reads_keep_def)
  then show ?thesis by (cases "read_bytes S w p") (auto simp: hash_file_def split: sum.splits)
qed

lemma group_of_dict_append:
  "group_of (dict_append d k v) k' = (if k' = k then group_of d k @ [v] else group_of d k')"
  by (induction d) (auto simp: group_of_def)

lemma group_of_Nil [simp]: "group_of [] k = []"
  by (simp add: group_of_def)

lemma keys_dict_append: "fst ` set (dict_append d k v) = insert k (fst ` set d)"
  by (induction d) (force split: if_splits)+

lemma distinct_dict_append: "distinct (map fst d) \<Longrightarrow> distinct (map fst (dict_append d k v))"
  by (induction d) (auto simp: keys_dict_append)

lemma entry_is_group: "distinct (map fst d) \<Longrightarrow> (k, vs) \<in> set d \<Longrightarrow> group_of d k = vs"
  by (simp add: group_of_def)

lemma group_is_entry: "group_of d k \<noteq> [] \<Longrightarrow> group_of d k \<in> set (map snd d)"
  by (auto simp: group_of_def split: option.splits dest!: map_of_SomeD intro: rev_image_eqI)

lemma filter_two:
  assumes "i < j" "j < length xs" "P (xs ! i)" "P (xs ! j)"
  shows "2 \<le> length (filter P xs) \<and> xs ! i \<in> set (filter P xs) \<and> xs ! j \<in> set (filter P xs)"
proof -
  have split: "xs = take j xs @ xs ! j # drop (Suc j) xs"
    using assms(2) by (simp add: id_take_nth_drop)
  have "xs ! i \<in> set (take j xs)"
    using assms(1,2) by (metis in_set_conv_nth length_take less_imp_le_nat min.absorb2 nth_take order_less_trans)
  then have "filter P (take j xs) \<noteq> []"
    using assms(3) by (auto simp: filter_empty_conv)
  then have "1 \<le> length (filter P (take j xs))"
    by (cases "filter P (take j xs)") auto
  moreover have "length (filter P xs) = length (filter P (take j xs)) + length (filter P (xs ! j # drop (Suc j) xs))"
    by (subst split) simp
  ultimately have "2 \<le> length (filter P xs)" using assms(4) by simp
  moreover have "xs ! i \<in> set xs" "xs ! j \<in> set xs" using assms(1,2) by auto
  ultimately show ?thesis using assms(3,4) by simp
qed

text \<open>
  When \<open>is_file\<close> answers for every entry of the input (and reading a file leaves the
  world as it is), the call returns, each group is the list of the regular readable
  entries with one hash, in input order, and two such entries with the same hash are in
  one returned group.
\<close>

lemma content_loop_answered:
  assumes "reads_keep S (\<lambda>w. w)" and "\<forall>f \<in> set files. \<exists>b. is_file S w f = Inr b"
  shows "\<exists>d'. find_by_content_loop S w d files = (w, Inr d')
           \<and> (\<forall>h. group_of d' h = group_of d h @ filter (has_hash S w h) files)
           \<and> (distinct (map fst d) \<longrightarrow> distinct (map fst d'))"
  using assms(2)
proof (induction files arbitrary: d)
  case Nil
  show ?case by simp
next
  case (Cons f files)
  from Cons.prems obtain b where b: "is_file S w f = Inr b" by auto
  from Cons.prems have rest: "\<forall>f \<in> set files. \<exists>b. is_file S w f = Inr b" by simp
  have quiet: "fst (hash_file S w f) = w"
    using hash_file_keeps [OF assms(1), of w f] by simp
  show ?case
  proof (cases b)
    case False
    with b Cons.IH [OF rest, of d] show ?thesis by (simp add: has_hash_def)
  next
    case True
    obtain r where h: "hash_file S w f = (w, r)" using quiet by (cases "hash_file S w f") simp
    show ?thesis
    proof (cases r)
      case (Inl e)
      with b True h Cons.IH [OF rest, of d] show ?thesis by (simp add: has_hash_def)
    next
      case (Inr hh)
      from Cons.IH [OF rest, of "dict_append d hh f"] obtain d' where
        d': "find_by_content_loop S w (dict_append d hh f) files = (w, Inr d')"
          "\<forall>h. group_of d' h = group_of (dict_append d hh f) h @ filter (has_hash S w h) files"
          "distinct (map fst (dict_append d hh f)) \<longrightarrow> distinct (map fst d')"
        by blast
      have "find_by_content_loop S w d (f # files) = (w, Inr d')"
        using b True h Inr d'(1) by simp
      moreover have "\<forall>h. group_of d' h = group_of d h @ filter (has_hash S w h) (f # files)"
        using d'(2) b True h Inr by (auto simp: group_of_dict_append has_hash_def)
      moreover have "distinct (map fst d) \<longrightarrow> distinct (map fst d')"
        using d'(3) by (simp add: distinct_dict_append)
      ultimately show ?thesis by blast
    qed
  qed
qed

lemma find_duplicates_content_answered:
  assumes "reads_keep S (\<lambda>w. w)" and "\<forall>f \<in> set files. \<exists>b. is_file S w f = Inr b"
  shows "\<exists>groups. find_duplicates S w files ''content'' = (w, Inr groups)
           \<and> (\<forall>g \<in> set groups. \<exists>h. g = filter (has_hash S w h) files)
           \<and> (\<forall>i j h. i < j \<and> j < length files \<and> has_hash S w h (files ! i)
                  \<and> has_hash S w h (files ! j) \<longrightarrow>
                (\<exists>g \<in> set groups. files ! i \<in> set g \<and> files ! j \<in> set g))"
proof -
  from content_loop_answered [OF assms, of "[]"] obtain d where
    d: "find_by_content_loop S w [] files = (w, Inr d)"
      "\<forall>h. group_of d h = filter (has_hash S w h) files" "distinct (map fst d)"
    by auto
  have run: "find_duplicates S w files ''content'' = (w, Inr (multi_groups d))"
    using d(1) by (simp add: find_duplicates_def find_by_content_def)
  have sound: "\<forall>g \<in> set (multi_groups d). \<exists>h. g = filter (has_hash S w h) files"
  proof
    fix g assume "g \<in> set (multi_groups d)"
    then obtain k where "(k, g) \<in> set d" by (auto simp: multi_groups_def)
    with d(3) have "group_of d k = g" by (rule entry_is_group)
    with d(2) show "\<exists>h. g = filter (has_hash S w h) files" by auto
  qed
  have complete: "\<forall>i j h. i < j \<and> j < length files \<and> has_hash S w h (files ! i)
                  \<and> has_hash S w h (files ! j) \<longrightarrow>
                (\<exists>g \<in> set (multi_groups d). files ! i \<in> set g \<and> files ! j \<in> set g)"
  proof (intro allI impI)
    fix i j h
    assume a: "i < j \<and> j < length files \<and> has_hash S w h (files ! i) \<and> has_hash S w h (files ! j)"
    let ?g = "filter (has_hash S w h) files"
    from a have two: "2 \<le> length ?g" and mem: "files ! i \<in> set ?g" "files ! j \<in> set ?g"
      using filter_two [of i j files "has_hash S w h"] by simp_all
    have g: "group_of d h = ?g" using d(2) by simp
    then have "group_of d h \<noteq> []" using two by auto
    then have "group_of d h \<in> set (map snd d)" by (rule group_is_entry)
    then have "?g \<in> set (multi_groups d)" using two g by (simp add: multi_groups_def)
    with mem show "\<exists>g \<in> set (multi_groups d). files ! i \<in> set g \<and> files ! j \<in> set g" by blast
  qed
  from run sound complete show ?thesis by blast
qed

lemma demo_long_path: "too_long long_path"
  by (simp add: too_long_def long_path_def)

lemma demo_files_short: "\<not> too_long (Path ''/'' [''a'', ''x.txt''])" "\<not> too_long (Path ''/'' [''b'', ''x.txt''])"
  by (simp_all add: too_long_def)

text \<open>
  C2. The claim says that two regular readable files of the input with the same
  content hash are placed in one returned group, for every list of files. The files
  \<open>/a/x.txt\<close> and \<open>/b/x.txt\<close> are regular, readable and have the same hash; given
  alone they come back as one group. Given together with a path whose name is too long
  for the file system to look up, \<open>is_file\<close> raises \<open>OSError\<close> on that path, the
  exception leaves \<open>find_duplicates\<close>, and no group is returned at all.
\<close>

theorem find_duplicates_unreadable_entry:
  "find_duplicates demo_sys (demo_files, 0)
      [Path ''/'' [''a'', ''x.txt''], Path ''/'' [''b'', ''x.txt'']] ''content''
     = ((demo_files, 2), Inr [[Path ''/'' [''a'', ''x.txt''], Path ''/'' [''b'', ''x.txt'']]])
   \<and> is_file demo_sys (demo_files, 2) long_path = Inl name_too_long
   \<and> find_duplicates demo_sys (demo_files, 0)
        [Path ''/'' [''a'', ''x.txt''], Path ''/'' [''b'', ''x.txt''], long_path] ''content''
       = ((demo_files, 2), Inl name_too_long)"
  by (simp add: find_duplicates_def find_by_content_def hash_file_whole multi_groups_def
      demo_long_path demo_files_short demo_files_def path_name_def numeral_2_eq_2)


subsection \<open>Deduplicator.handle_duplicates\<close>

lemma py_max_loop_spec:
  assumes "key best = Inr bv" and "\<forall>x \<in> set xs. \<exists>v. key x = Inr v"
  shows "\<exists>k v. py_max_loop key best bv xs = Inr k \<and> k \<in> set (best # xs) \<and> key k = Inr v
           \<and> bv \<le> v \<and> (\<forall>x \<in> set xs. \<forall>u. key x = Inr u \<longrightarrow> u \<le> v)"
  using assms
proof (induction xs arbitrary: best bv)
  case Nil
  then show ?case by simp
next
  case (Cons x xs)
  from Cons.prems(2) obtain vx where vx: "key x = Inr vx" by auto
  from Cons.prems(2) have rest: "\<forall>y \<in> set xs. \<exists>v. key y = Inr v" by simp
  show ?case
  proof (cases "vx > bv")
    case True
    from Cons.IH [OF vx rest] obtain k v where
      "py_max_loop key x vx xs = Inr k" "k \<in> set (x # xs)" "key k = Inr v" "vx \<le> v"
      "\<forall>y \<in> set xs. \<forall>u. key y = Inr u \<longrightarrow> u \<le> v" by blast
    then show ?thesis using True vx by (intro exI [of _ k] exI [of _ v]) auto
  next
    case False
    from Cons.IH [OF Cons.prems(1) rest] obtain k v where
      "py_max_loop key best bv xs = Inr k" "k \<in> set (best # xs)" "key k = Inr v" "bv \<le> v"
      "\<forall>y \<in> set xs. \<forall>u. key y = Inr u \<longrightarrow> u \<le> v" by blast
    then show ?thesis using False vx by (intro exI [of _ k] exI [of _ v]) auto
  qed
qed

lemma py_min_loop_spec:
  assumes "key best = Inr bv" and "\<forall>x \<in> set xs. \<exists>v. key x = Inr v"
  shows "\<exists>k v. py_min_loop key best bv xs = Inr k \<and> k \<in> set (best # xs) \<and> key k = Inr v
           \<and> v \<le> bv \<and> (\<forall>x \<in> set xs. \<forall>u. key x = Inr u \<longrightarrow> v \<le> u)"
  using assms
proof (induction xs arbitrary: best bv)
  case Nil
  then show ?case by simp
next
  case (Cons x xs)
  from Cons.prems(2) obtain vx where vx: "key x = Inr vx" by auto
  from Cons.prems(2) have rest: "\<forall>y \<in> set xs. \<exists>v. key y = Inr v" by simp
  show ?case
  proof (cases "vx < bv")
    case True
    from Cons.IH [OF vx rest] obtain k v where
      "py_min_loop key x vx xs = Inr k" "k \<in> set (x # xs)" "key k = Inr v" "v \<le> vx"
      "\<forall>y \<in> set xs. \<forall>u. key y = Inr u \<longrightarrow> v \<le> u" by blast
    then show ?thesis using True vx by (intro exI [of _ k] exI [of _ v]) auto
  next
    case False
    from Cons.IH [OF Cons.prems(1) rest] obtain k v where
      "py_min_loop key best bv xs = Inr k" "k \<in> set (best # xs)" "key k = Inr v" "v \<le> bv"
      "\<forall>y \<in> set xs. \<forall>u. key y = Inr u \<longrightarrow> v \<le> u" by blast
    then show ?thesis using False vx by (intro exI [of _ k] exI [of _ v]) auto
  qed
qed

lemma py_max_spec:
  assumes "xs \<noteq> []" and "\<forall>x \<in> set xs. \<exists>v. key x = Inr v"
  shows "\<exists>k v. py_max key xs = Inr k \<and> k \<in> set xs \<and> key k = Inr v
           \<and> (\<forall>x \<in> set xs. \<forall>u. key x = Inr u \<longrightarrow> u \<le> v)"
proof -
  from assms(1) obtain x rest where xs: "xs = x # rest" by (cases xs) auto
  from assms(2) xs obtain vx where vx: "key x = Inr vx" by auto
  from assms(2) xs have "\<forall>y \<in> set rest. \<exists>v. key y = Inr v" by simp
  from py_max_loop_spec [OF vx this] obtain k v where
    "py_max_loop key x vx rest = Inr k" "k \<in> set (x # rest)" "key k = Inr v" "vx \<le> v"
    "\<forall>y \<in> set rest. \<forall>u. key y = Inr u \<longrightarrow> u \<le> v" by blast
  then show ?thesis using xs vx by (intro exI [of _ k] exI [of _ v]) (auto simp: py_max_def)
qed

lemma py_min_spec:
  assumes "xs \<noteq> []" and "\<forall>x \<in> set xs. \<exists>v. key x = Inr v"
  shows "\<exists>k v. py_min key xs = Inr k \<and> k \<in> set xs \<and> key k = Inr v
           \<and> (\<forall>x \<in> set xs. \<forall>u. key x = Inr u \<longrightarrow> v \<le> u)"
proof -
  from assms(1) obtain x rest where xs: "xs = x # rest" by (cases xs) auto
  from assms(2) xs obtain vx where vx: "key x = Inr vx" by auto
  from assms(2) xs have "\<forall>y \<in> set rest. \<exists>v. key y = Inr v" by simp
  from py_min_loop_spec [OF vx this] obtain k v where
    "py_min_loop key x vx rest = Inr k" "k \<in> set (x # rest)" "key k = Inr v" "v \<le> vx"
    "\<forall>y \<in> set rest. \<forall>u. key y = Inr u \<longrightarrow> v \<le> u" by blast
  then show ?thesis using xs vx by (intro exI [of _ k] exI [of _ v]) (auto simp: py_min_def)
qed

lemma handle_remaining_skips_kept:
  "handle_remaining S w k tagd label g = handle_remaining S w k tagd label (filter (\<lambda>f. f \<noteq> k) g)"
proof (induction g arbitrary: w)
  case Nil
  show ?case by simp
next
  case (Cons f g)
  show ?case
  proof (cases "f = k")
    case True
    then show ?thesis using Cons.IH by simp
  next
    case False
    then show ?thesis using Cons.IH by (auto split: prod.splits option.splits sum.splits)
  qed
qed

text \<open>
  C3. A group with fewer than two members is left alone: no call is made and the world
  is as before. For a group of two or more whose members can all be stat-ed,
  \<open>newest\<close> keeps a member whose modification time is the greatest of the group and
  \<open>oldest\<close> one whose time is the least; \<open>first\<close> keeps the first member whatever
  the times are (and whether or not they can be read). The loop that follows handles
  exactly the members other than the kept file.
\<close>

theorem handle_duplicates_keep:
  "(length g < 2 \<longrightarrow> handle_duplicates S w g kp tagd label = (w, None))
   \<and> (2 \<le> length g \<and> (\<forall>f \<in> set g. \<exists>t. stat_mtime S w f = Inr t) \<longrightarrow>
        (\<exists>k t. keep_file S w g ''newest'' = Inr k \<and> k \<in> set g \<and> stat_mtime S w k = Inr t
               \<and> (\<forall>f \<in> set g. \<forall>u. stat_mtime S w f = Inr u \<longrightarrow> u \<le> t))
      \<and> (\<exists>k t. keep_file S w g ''oldest'' = Inr k \<and> k \<in> set g \<and> stat_mtime S w k = Inr t
               \<and> (\<forall>f \<in> set g. \<forall>u. stat_mtime S w f = Inr u \<longrightarrow> t \<le> u)))
   \<and> (2 \<le> length g \<longrightarrow> keep_file S w g ''first'' = Inr (g ! 0))
   \<and> (2 \<le> length g \<and> keep_file S w g kp = Inr k \<longrightarrow>
        handle_duplicates S w g kp tagd label
          = handle_remaining S w k tagd label (filter (\<lambda>f. f \<noteq> k) g))"
proof (intro conjI impI)
  assume "length g < 2"
  then show "handle_duplicates S w g kp tagd label = (w, None)"
    by (simp add: handle_duplicates_def)
next
  assume a: "2 \<le> length g \<and> (\<forall>f \<in> set g. \<exists>t. stat_mtime S w f = Inr t)"
  then have ne: "g \<noteq> []" by auto
  from a have all: "\<forall>f \<in> set g. \<exists>t. stat_mtime S w f = Inr t" by simp
  show "\<exists>k t. keep_file S w g ''newest'' = Inr k \<and> k \<in> set g \<and> stat_mtime S w k = Inr t
               \<and> (\<forall>f \<in> set g. \<forall>u. stat_mtime S w f = Inr u \<longrightarrow> u \<le> t)"
    using py_max_spec [OF ne all] by (simp add: keep_file_def)
next
  assume a: "2 \<le> length g \<and> (\<forall>f \<in> set g. \<exists>t. stat_mtime S w f = Inr t)"
  then have ne: "g \<noteq> []" by auto
  from a have all: "\<forall>f \<in> set g. \<exists>t. stat_mtime S w f = Inr t" by simp
  show "\<exists>k t. keep_file S w g ''oldest'' = Inr k \<and> k \<in> set g \<and> stat_mtime S w k = Inr t
               \<and> (\<forall>f \<in> set g. \<forall>u. stat_mtime S w f = Inr u \<longrightarrow> t \<le> u)"
    using py_min_spec [OF ne all] by (simp add: keep_file_def)
next
  assume "2 \<le> length g"
  then show "keep_file S w g ''first'' = Inr (g ! 0)"
    by (cases g) (simp_all add: keep_file_def)
next
  assume "2 \<le> length g \<and> keep_file S w g kp = Inr k"
  then have "handle_duplicates S w g kp tagd label = handle_remaining S w k tagd label g"
    by (simp add: handle_duplicates_def)
  then show "handle_duplicates S w g kp tagd label
          = handle_remaining S w k tagd label (filter (\<lambda>f. f \<noteq> k) g)"
    using handle_remaining_skips_kept by simp
qed

text \<open>C3, in the small world: a group of one is left alone; of the three files, \<open>newest\<close> keeps \<open>yy.txt\<close> and removes the two others, \<open>oldest\<close> and \<open>first\<close> keep \<open>/a/x.txt\<close>.\<close>

theorem handle_duplicates_keep_witness:
  "length [Path ''/'' [''a'', ''x.txt'']] < 2
   \<and> handle_duplicates demo_sys (demo_files, 0) [Path ''/'' [''a'', ''x.txt'']] ''newest'' False ''dup''
       = ((demo_files, 0), None)
   \<and> 2 \<le> length demo_files
   \<and> list_all (\<lambda>f. \<exists>t. stat_mtime demo_sys (demo_files, 0) f = Inr t) demo_files
   \<and> keep_file demo_sys (demo_files, 0) demo_files ''newest'' = Inr (Path ''/'' [''a'', ''yy.txt''])
   \<and> keep_file demo_sys (demo_files, 0) demo_files ''oldest'' = Inr (Path ''/'' [''a'', ''x.txt''])
   \<and> keep_file demo_sys (demo_files, 0) demo_files ''first'' = Inr (Path ''/'' [''a'', ''x.txt''])
   \<and> handle_duplicates demo_sys (demo_files, 0) demo_files ''newest'' False ''dup''
       = (([Path ''/'' [''a'', ''yy.txt'']], 0), None)"
proof -
  let ?one = "[Path ''/'' [''a'', ''x.txt'']]"
  let ?k = "Path ''/'' [''a'', ''yy.txt'']"
  have small: "length ?one < 2" by simp
  have noop: "handle_duplicates demo_sys (demo_files, 0) ?one ''newest'' False ''dup'' = ((demo_files, 0), None)"
    using handle_duplicates_keep [where g = ?one and S = demo_sys and w = "(demo_files, 0)"
        and kp = "''newest''" and tagd = False and label = "''dup''"] small
    by blast
  have two: "2 \<le> length demo_files" by (simp add: demo_files_def)
  have stats: "list_all (\<lambda>f. \<exists>t. stat_mtime demo_sys (demo_files, 0) f = Inr t) demo_files"
    by (simp add: demo_files_def too_long_def)
  have newest: "keep_file demo_sys (demo_files, 0) demo_files ''newest'' = Inr ?k"
    by (simp add: keep_file_def py_max_def demo_files_def path_name_def too_long_def)
  have oldest: "keep_file demo_sys (demo_files, 0) demo_files ''oldest'' = Inr (Path ''/'' [''a'', ''x.txt''])"
    by (simp add: keep_file_def py_min_def demo_files_def path_name_def too_long_def)
  have first: "keep_file demo_sys (demo_files, 0) demo_files ''first'' = Inr (Path ''/'' [''a'', ''x.txt''])"
    using handle_duplicates_keep [where g = demo_files and S = demo_sys and w = "(demo_files, 0)"] two
    by (simp add: demo_files_def)
  have "handle_duplicates demo_sys (demo_files, 0) demo_files ''newest'' False ''dup''
          = handle_remaining demo_sys (demo_files, 0) ?k False ''dup'' (filter (\<lambda>f. f \<noteq> ?k) demo_files)"
    using handle_duplicates_keep [where g = demo_files and S = demo_sys and w = "(demo_files, 0)"
        and kp = "''newest''" and tagd = False and label = "''dup''" and k = ?k] two newest
    by blast
  also have "\<dots> = (([?k], 0), None)"
    by (simp add: demo_files_def move_to_trash_def too_long_def)
  finally show ?thesis using small noop two stats newest oldest first by blast
qed


subsection \<open>Renamer.rename\<close>

lemma split_on_no_sep: "sep \<notin> set s \<Longrightarrow> split_on sep s = [s]"
  by (induction s) auto

lemma split_on_parts: "c \<in> set (split_on sep s) \<Longrightarrow> sep \<notin> set c"
proof (induction s arbitrary: c)
  case Nil
  then show ?case by simp
next
  case (Cons x s)
  then show ?case by (cases "split_on sep s") (auto split: if_splits)
qed

lemma wf_path_of_string: "wf_path (path_of_string s)"
  by (auto simp: wf_path_def path_of_string_def list_all_iff dest: split_on_parts)

lemma root_of_part: "CHR ''/'' \<notin> set c \<Longrightarrow> root_of_string c = []"
  by (cases c) (auto simp: root_of_string_def startswith_def)

lemma path_of_part:
  "c \<noteq> [] \<Longrightarrow> c \<noteq> ''.'' \<Longrightarrow> CHR ''/'' \<notin> set c \<Longrightarrow> path_of_string c = Path [] [c]"
  by (simp add: path_of_string_def root_of_part split_on_no_sep)

lemma joinpath_part:
  "c \<noteq> [] \<Longrightarrow> c \<noteq> ''.'' \<Longrightarrow> CHR ''/'' \<notin> set c \<Longrightarrow> joinpath p c = Path (path_root p) (path_parts p @ [c])"
  by (simp add: joinpath_def path_of_part)

lemma joinpath_parent_name:
  assumes "wf_path p"
  shows "joinpath (path_parent p) (path_name p) = p"
proof (cases "path_parts p = []")
  case True
  then show ?thesis
    by (cases p) (simp add: joinpath_def path_parent_def path_name_def path_of_string_def root_of_string_def startswith_def)
next
  case False
  then have last: "last (path_parts p) \<in> set (path_parts p)" by simp
  with assms have "last (path_parts p) \<noteq> []" "last (path_parts p) \<noteq> ''.''"
    "CHR ''/'' \<notin> set (last (path_parts p))"
    by (auto simp: wf_path_def list_all_iff)
  then have "joinpath (path_parent p) (last (path_parts p))
               = Path (path_root (path_parent p)) (path_parts (path_parent p) @ [last (path_parts p)])"
    by (rule joinpath_part)
  then show ?thesis using False by (cases p) (simp add: path_parent_def path_name_def)
qed

lemma vacation_name: "path_name (Path r (ps @ [n])) = n"
  by (simp add: path_name_def)

lemma new_name_vacation:
  "new_name S (Path r (ps @ [''vacation.png''])) None (Some ''IMG'') None ''-'' = Inr ''IMG-vacation.png''"
  by (simp add: new_name_def apply_replace_def path_stem_def path_suffix_def vacation_name rfind_dot_def
      sub_separator_def strip_separator_def ascii_def backslash_def strip_chars_def lstrip_chars_def
      rstrip_chars_def startswith_def)

text \<open>
  C8. With prefix \<open>IMG\<close> and separator \<open>-\<close>, the file \<open>vacation.png\<close> of any
  directory gets the name \<open>IMG-vacation.png\<close>, and \<open>rename\<close> asks the file system
  for that one rename in the same directory. Whenever the name computed for a file is
  the name it has, \<open>rename\<close> leaves the world as it is: it returns the path
  unchanged when the file exists, and raises \<open>FileNotFoundError\<close> when it does not
  (or the exception of \<open>exists\<close>), without a call to the file system's rename in any
  of these cases.
\<close>

theorem rename_prefix_and_noop:
  "new_name S (Path r (ps @ [''vacation.png''])) None (Some ''IMG'') None ''-'' = Inr ''IMG-vacation.png''
   \<and> (path_exists S w (Path r (ps @ [''vacation.png''])) = Inr True \<longrightarrow>
        renamer_rename S w (Path r (ps @ [''vacation.png''])) None (Some ''IMG'') None ''-''
          = (case path_rename S w (Path r (ps @ [''vacation.png''])) (Path r (ps @ [''IMG-vacation.png''])) of
               (w', Some e) \<Rightarrow> (w', Inl e)
             | (w', None) \<Rightarrow> (w', Inr (Path r (ps @ [''IMG-vacation.png'']))))) 
   \<and> (wf_path file_path \<and> new_name S file_path rep pfx sfx sep = Inr (path_name file_path) \<longrightarrow>
        fst (renamer_rename S w file_path rep pfx sfx sep) = w
        \<and> (path_exists S w file_path = Inr True \<longrightarrow>
             renamer_rename S w file_path rep pfx sfx sep = (w, Inr file_path)))"
proof (intro conjI impI)
  show "new_name S (Path r (ps @ [''vacation.png''])) None (Some ''IMG'') None ''-'' = Inr ''IMG-vacation.png''"
    by (rule new_name_vacation)
next
  assume ex: "path_exists S w (Path r (ps @ [''vacation.png''])) = Inr True"
  have j: "joinpath (path_parent (Path r (ps @ [''vacation.png'']))) ''IMG-vacation.png''
             = Path r (ps @ [''IMG-vacation.png''])"
    by (simp add: joinpath_part path_parent_def)
  show "renamer_rename S w (Path r (ps @ [''vacation.png''])) None (Some ''IMG'') None ''-''
          = (case path_rename S w (Path r (ps @ [''vacation.png''])) (Path r (ps @ [''IMG-vacation.png''])) of
               (w', Some e) \<Rightarrow> (w', Inl e)
             | (w', None) \<Rightarrow> (w', Inr (Path r (ps @ [''IMG-vacation.png'']))))"
    using ex by (simp add: renamer_rename_def new_name_vacation j Let_def)
next
  assume a: "wf_path file_path \<and> new_name S file_path rep pfx sfx sep = Inr (path_name file_path)"
  then have "joinpath (path_parent file_path) (path_name file_path) = file_path"
    by (simp add: joinpath_parent_name)
  with a show "fst (renamer_rename S w file_path rep pfx sfx sep) = w"
    by (simp add: renamer_rename_def split: sum.splits)
next
  assume a: "wf_path file_path \<and> new_name S file_path rep pfx sfx sep = Inr (path_name file_path)"
    and ex: "path_exists S w file_path = Inr True"
  then have "joinpath (path_parent file_path) (path_name file_path) = file_path"
    by (simp add: joinpath_parent_name)
  with a ex show "renamer_rename S w file_path rep pfx sfx sep = (w, Inr file_path)"
    by (simp add: renamer_rename_def)
qed

text \<open>C8, in the small world: the file is renamed to \<open>IMG-vacation.png\<close>; with nothing to add it keeps its name and the world is the same.\<close>

theorem rename_prefix_and_noop_witness:
  "path_exists demo_sys ([Path ''/'' [''pics'', ''vacation.png'']], 0) (Path ''/'' [''pics'', ''vacation.png'']) = Inr True
   \<and> renamer_rename demo_sys ([Path ''/'' [''pics'', ''vacation.png'']], 0)
         (Path ''/'' [''pics'', ''vacation.png'']) None (Some ''IMG'') None ''-''
       = (([Path ''/'' [''pics'', ''IMG-vacation.png'']], 0), Inr (Path ''/'' [''pics'', ''IMG-vacation.png'']))
   \<and> wf_path (Path ''/'' [''pics'', ''vacation.png''])
   \<and> new_name demo_sys (Path ''/'' [''pics'', ''vacation.png'']) None None None ''-''
       = Inr (path_name (Path ''/'' [''pics'', ''vacation.png'']))
   \<and> renamer_rename demo_sys ([Path ''/'' [''pics'', ''vacation.png'']], 0)
         (Path ''/'' [''pics'', ''vacation.png'']) None None None ''-''
       = (([Path ''/'' [''pics'', ''vacation.png'']], 0), Inr (Path ''/'' [''pics'', ''vacation.png'']))"
proof -
  let ?P = "Path ''/'' [''pics'', ''vacation.png'']"
  have ex: "path_exists demo_sys ([?P], 0) ?P = Inr True" by (simp add: too_long_def)
  have wf: "wf_path ?P" by (simp add: wf_path_def)
  have same: "new_name demo_sys ?P None None None ''-'' = Inr (path_name ?P)"
    by (simp add: new_name_def apply_replace_def path_stem_def path_suffix_def path_name_def rfind_dot_def
        sub_separator_def strip_separator_def ascii_def backslash_def strip_chars_def lstrip_chars_def
      rstrip_chars_def startswith_def)
  note inst = rename_prefix_and_noop [where S = demo_sys and w = "([?P], 0)" and r = "''/''" and ps = "[''pics'']"
      and file_path = ?P and rep = None and pfx = None and sfx = None and sep = "''-''"]
  from inst ex have "renamer_rename demo_sys ([?P], 0) ?P None (Some ''IMG'') None ''-''
      = (case path_rename demo_sys ([?P], 0) ?P (Path ''/'' [''pics'', ''IMG-vacation.png'']) of
               (w', Some e) \<Rightarrow> (w', Inl e)
             | (w', None) \<Rightarrow> (w', Inr (Path ''/'' [''pics'', ''IMG-vacation.png''])))"
    by simp
  then have renamed: "renamer_rename demo_sys ([?P], 0) ?P None (Some ''IMG'') None ''-''
      = (([Path ''/'' [''pics'', ''IMG-vacation.png'']], 0), Inr (Path ''/'' [''pics'', ''IMG-vacation.png'']))"
    by simp
  from inst wf same ex have "renamer_rename demo_sys ([?P], 0) ?P None None None ''-'' = (([?P], 0), Inr ?P)"
    by blast
  with ex renamed wf same show ?thesis by blast
qed


subsection \<open>Runner: planning\<close>

lemma plan_files_total:
  assumes "answers S w r files" and "\<And>f. mk f = Inr (g f)"
  shows "plan_files S w r mk files ops = Inr (ops @ map g (matching S w r files))"
  using assms(1)
proof (induction files arbitrary: ops)
  case Nil
  show ?case by (simp add: matching_def)
next
  case (Cons f files)
  from Cons.prems have rest: "answers S w r files"
    and f: "matches S w (condition r) f = Inr True \<or> matches S w (condition r) f = Inr False"
    by (simp_all add: answers_def)
  from f show ?case
  proof
    assume "matches S w (condition r) f = Inr True"
    then show ?thesis using Cons.IH [OF rest] assms(2) by (simp add: matching_def)
  next
    assume "matches S w (condition r) f = Inr False"
    then show ?thesis using Cons.IH [OF rest] by (simp add: matching_def)
  qed
qed

text \<open>The three scans of the rename and tag planners, each followed by the loop over its files.\<close>

lemma plan_default_paths_total:
  assumes "scan_directory S w d1 = (wa, Inr files1)"
    and "scan_directory S wa d2 = (wb, Inr files2)"
    and "scan_directory S wb d3 = (wc, Inr files3)"
    and "answers S wa r files1" and "answers S wb r files2" and "answers S wc r files3"
    and "\<And>f. mk f = Inr (g f)"
  shows "plan_scan_paths S w r mk [d1, d2, d3] ops
           = (wc, Inr (ops @ map g (matching S wa r files1 @ matching S wb r files2
                                      @ matching S wc r files3)))"
  using assms(1-3) plan_files_total [OF assms(4) assms(7)] plan_files_total [OF assms(5) assms(7)]
    plan_files_total [OF assms(6) assms(7)]
  by simp

text \<open>
  C7. A move rule whose condition has no path (unset or empty) plans nothing: the
  operation list comes back as it was and nothing is scanned. A move rule with a path
  scans that path and nothing else, and plans one move for each file of the scan its
  condition matches. A rename or tag rule scans the three default directories, one
  after the other, whatever the rule says, and plans one operation for each file of
  these scans its condition matches: the condition, its path included, acts only as the
  filter. The planner raises where a scan raises (\<open>exists\<close>, \<open>is_file\<close> or the walk) and
  where the condition raises on a scanned file (a regex, or a \<open>stat\<close> that fails
  outside \<open>OSError\<close>); the equations are for the case where the scans return and the
  condition answers on each of their files.
\<close>

theorem planner_scan_scope:
  "(\<not> truthy (path (condition r)) \<longrightarrow> plan_move_operations S w r ops = (w, Inr ops))
   \<and> (path (condition r) = Some p \<and> p \<noteq> [] \<longrightarrow>
        (scan_directory S w p = (wp, Inl e) \<longrightarrow> plan_move_operations S w r ops = (wp, Inl e))
        \<and> (scan_directory S w p = (wp, Inr files) \<and> move (action r) = Some m \<and> answers S wp r files \<longrightarrow>
             plan_move_operations S w r ops
               = (wp, Inr (ops @ map (\<lambda>f. Operation (name r) f
                                        (MoveDetails (expanduser S m) (create_if_missing (action r))
                                           (tag (action r))))
                                 (matching S wp r files)))))
   \<and> (scan_directory S w (expanduser S ''~/Downloads'') = (wa, Inr downloads)
      \<and> scan_directory S wa (expanduser S ''~/Documents'') = (wb, Inr documents)
      \<and> scan_directory S wb (expanduser S ''~/Desktop'') = (wc, Inr desktop)
      \<and> answers S wa r downloads \<and> answers S wb r documents \<and> answers S wc r desktop \<longrightarrow>
      plan_rename_operations S w r ops
        = (wc, Inr (ops @ map (\<lambda>f. Operation (name r) f
                                (RenameDetails (replace (action r)) (prefix (action r)) (suffix (action r))
                                   (separator (action r))))
                       (matching S wa r downloads @ matching S wb r documents @ matching S wc r desktop)))
      \<and> plan_tag_operations S w r ops
        = (wc, Inr (ops @ map (\<lambda>f. Operation (name r) f
                                (TagDetails (case tag (action r) of None \<Rightarrow> [] | Some d \<Rightarrow> d)))
                       (matching S wa r downloads @ matching S wb r documents @ matching S wc r desktop))))"
proof (intro conjI impI)
  assume "\<not> truthy (path (condition r))"
  then show "plan_move_operations S w r ops = (w, Inr ops)"
    by (simp add: plan_move_operations_def)
next
  assume "path (condition r) = Some p \<and> p \<noteq> []" and "scan_directory S w p = (wp, Inl e)"
  then show "plan_move_operations S w r ops = (wp, Inl e)"
    by (simp add: plan_move_operations_def)
next
  assume a: "path (condition r) = Some p \<and> p \<noteq> []"
    and b: "scan_directory S w p = (wp, Inr files) \<and> move (action r) = Some m \<and> answers S wp r files"
  then have mk: "\<And>f. move_operation S r f = Inr (Operation (name r) f
        (MoveDetails (expanduser S m) (create_if_missing (action r)) (tag (action r))))"
    by (simp add: move_operation_def)
  from b have ans: "answers S wp r files" by simp
  show "plan_move_operations S w r ops
               = (wp, Inr (ops @ map (\<lambda>f. Operation (name r) f
                                        (MoveDetails (expanduser S m) (create_if_missing (action r))
                                           (tag (action r))))
                                 (matching S wp r files)))"
    using a b plan_files_total [OF ans mk] by (simp add: plan_move_operations_def)
next
  assume a: "scan_directory S w (expanduser S ''~/Downloads'') = (wa, Inr downloads)
      \<and> scan_directory S wa (expanduser S ''~/Documents'') = (wb, Inr documents)
      \<and> scan_directory S wb (expanduser S ''~/Desktop'') = (wc, Inr desktop)
      \<and> answers S wa r downloads \<and> answers S wb r documents \<and> answers S wc r desktop"
  have mk: "\<And>f. rename_operation r f = Inr (Operation (name r) f
        (RenameDetails (replace (action r)) (prefix (action r)) (suffix (action r)) (separator (action r))))"
    by (simp add: rename_operation_def)
  from a show "plan_rename_operations S w r ops
        = (wc, Inr (ops @ map (\<lambda>f. Operation (name r) f
                                (RenameDetails (replace (action r)) (prefix (action r)) (suffix (action r))
                                   (separator (action r))))
                       (matching S wa r downloads @ matching S wb r documents @ matching S wc r desktop)))"
    unfolding plan_rename_operations_def
    by (intro plan_default_paths_total [where mk = "rename_operation r", OF _ _ _ _ _ _ mk]) simp_all
next
  assume a: "scan_directory S w (expanduser S ''~/Downloads'') = (wa, Inr downloads)
      \<and> scan_directory S wa (expanduser S ''~/Documents'') = (wb, Inr documents)
      \<and> scan_directory S wb (expanduser S ''~/Desktop'') = (wc, Inr desktop)
      \<and> answers S wa r downloads \<and> answers S wb r documents \<and> answers S wc r desktop"
  have mk: "\<And>f. tag_operation r f = Inr (Operation (name r) f
        (TagDetails (case tag (action r) of None \<Rightarrow> [] | Some d \<Rightarrow> d)))"
    by (simp add: tag_operation_def)
  from a show "plan_tag_operations S w r ops
        = (wc, Inr (ops @ map (\<lambda>f. Operation (name r) f
                                (TagDetails (case tag (action r) of None \<Rightarrow> [] | Some d \<Rightarrow> d)))
                       (matching S wa r downloads @ matching S wb r documents @ matching S wc r desktop)))"
    unfolding plan_tag_operations_def
    by (intro plan_default_paths_total [where mk = "tag_operation r", OF _ _ _ _ _ _ mk]) simp_all
qed


lemma demo_scans:
  "scan_directory demo_sys (demo_world, n) ''/tmp'' = ((demo_world, Suc n), Inr [Path ''/'' [''tmp'', ''c.pdf'']])"
  "scan_directory demo_sys (demo_world, n) ''~/Downloads''
     = ((demo_world, Suc n), Inr [Path [] [''~'', ''Downloads'', ''a.pdf'']])"
  "scan_directory demo_sys (demo_world, n) ''~/Documents'' = ((demo_world, n), Inr [])"
  "scan_directory demo_sys (demo_world, n) ''~/Desktop''
     = ((demo_world, Suc n), Inr [Path [] [''~'', ''Desktop'', ''b.txt'']])"
  by (simp_all add: scan_directory_def path_of_string_def root_of_string_def startswith_def demo_world_def
      under_def too_long_def)

lemma demo_matches:
  "matches demo_sys w (condition (pdf_rule (Some ''/tmp''))) (Path ''/'' [''tmp'', ''c.pdf'']) = Inr True"
  "matches demo_sys w (condition (pdf_rule (Some ''/tmp''))) (Path [] [''~'', ''Downloads'', ''a.pdf'']) = Inr False"
  "matches demo_sys w (condition (pdf_rule (Some ''/tmp''))) (Path [] [''~'', ''Desktop'', ''b.txt'']) = Inr False"
  "matches demo_sys w (condition (pdf_rule None)) (Path [] [''~'', ''Downloads'', ''a.pdf'']) = Inr True"
  "matches demo_sys w (condition (pdf_rule None)) (Path [] [''~'', ''Desktop'', ''b.txt'']) = Inr False"
  by (simp_all add: matches_def search_name_def pdf_rule_def unset_condition_def path_str_def
      path_suffix_def path_name_def rfind_dot_def lstrip_chars_def string_defs)

text \<open>
  C7, in the small world. The rule without a path plans no move, and one rename, for
  the PDF of the home. The rule with the path \<open>/tmp\<close> plans the move of the PDF
  there; as a rename or tag rule it plans nothing, for \<open>/tmp\<close> is not scanned and no
  file of the three default directories lies under it.
\<close>

theorem planner_scan_scope_witness:
  "\<not> truthy (path (condition (pdf_rule None)))
   \<and> plan_move_operations demo_sys (demo_world, 0) (pdf_rule None) [] = ((demo_world, 0), Inr [])
   \<and> path (condition (pdf_rule (Some ''/tmp''))) = Some ''/tmp'' \<and> ''/tmp'' \<noteq> []
   \<and> scan_directory demo_sys (demo_world, 0) ''/tmp''
       = ((demo_world, 1), Inr [Path ''/'' [''tmp'', ''c.pdf'']])
   \<and> move (action (pdf_rule (Some ''/tmp''))) = Some ''/dst''
   \<and> answers demo_sys (demo_world, 1) (pdf_rule (Some ''/tmp'')) [Path ''/'' [''tmp'', ''c.pdf'']]
   \<and> plan_move_operations demo_sys (demo_world, 0) (pdf_rule (Some ''/tmp'')) []
       = ((demo_world, 1),
          Inr [Operation ''pdfs'' (Path ''/'' [''tmp'', ''c.pdf'']) (MoveDetails ''/dst'' False None)])
   \<and> scan_directory demo_sys (demo_world, 0) (expanduser demo_sys ''~/Downloads'')
       = ((demo_world, 1), Inr [Path [] [''~'', ''Downloads'', ''a.pdf'']])
   \<and> scan_directory demo_sys (demo_world, 1) (expanduser demo_sys ''~/Documents'')
       = ((demo_world, 1), Inr [])
   \<and> scan_directory demo_sys (demo_world, 1) (expanduser demo_sys ''~/Desktop'')
       = ((demo_world, 2), Inr [Path [] [''~'', ''Desktop'', ''b.txt'']])
   \<and> answers demo_sys (demo_world, 1) (pdf_rule (Some ''/tmp'')) [Path [] [''~'', ''Downloads'', ''a.pdf'']]
   \<and> answers demo_sys (demo_world, 1) (pdf_rule (Some ''/tmp'')) []
   \<and> answers demo_sys (demo_world, 2) (pdf_rule (Some ''/tmp'')) [Path [] [''~'', ''Desktop'', ''b.txt'']]
   \<and> plan_rename_operations demo_sys (demo_world, 0) (pdf_rule (Some ''/tmp'')) [] = ((demo_world, 2), Inr [])
   \<and> plan_tag_operations demo_sys (demo_world, 0) (pdf_rule (Some ''/tmp'')) [] = ((demo_world, 2), Inr [])
   \<and> plan_rename_operations demo_sys (demo_world, 0) (pdf_rule None) []
       = ((demo_world, 2),
          Inr [Operation ''pdfs'' (Path [] [''~'', ''Downloads'', ''a.pdf''])
                 (RenameDetails None (Some ''IMG'') None ''-'')])"
proof -
  let ?r0 = "pdf_rule None" and ?r1 = "pdf_rule (Some ''/tmp'')"
  let ?a = "Path [] [''~'', ''Downloads'', ''a.pdf'']" and ?b = "Path [] [''~'', ''Desktop'', ''b.txt'']"
  let ?c = "Path ''/'' [''tmp'', ''c.pdf'']"
  have nopath: "\<not> truthy (path (condition ?r0))"
    by (simp add: pdf_rule_def)
  have h1: "path (condition ?r1) = Some ''/tmp'' \<and> ''/tmp'' \<noteq> []" "move (action ?r1) = Some ''/dst''"
    by (simp_all add: pdf_rule_def demo_action_def)
  have s1: "scan_directory demo_sys (demo_world, 0) ''/tmp'' = ((demo_world, 1), Inr [?c])"
    by (simp add: demo_scans)
  have d1: "scan_directory demo_sys (demo_world, 0) (expanduser demo_sys ''~/Downloads'') = ((demo_world, 1), Inr [?a])"
    and d2: "scan_directory demo_sys (demo_world, 1) (expanduser demo_sys ''~/Documents'') = ((demo_world, 1), Inr [])"
    and d3: "scan_directory demo_sys (demo_world, 1) (expanduser demo_sys ''~/Desktop'') = ((demo_world, 2), Inr [?b])"
    by (simp_all add: demo_scans numeral_2_eq_2)
  have a1: "answers demo_sys (demo_world, 1) ?r1 [?c]"
    and b1: "answers demo_sys (demo_world, 1) ?r1 [?a]" "answers demo_sys (demo_world, 1) ?r1 []"
      "answers demo_sys (demo_world, 2) ?r1 [?b]"
    and b0: "answers demo_sys (demo_world, 1) ?r0 [?a]" "answers demo_sys (demo_world, 1) ?r0 []"
      "answers demo_sys (demo_world, 2) ?r0 [?b]"
    by (simp_all add: answers_def demo_matches)
  have fields: "name ?r0 = ''pdfs''" "name ?r1 = ''pdfs''" "create_if_missing (action ?r1) = False"
    "tag (action ?r1) = None" "tag (action ?r0) = None" "replace (action ?r0) = None"
    "prefix (action ?r0) = Some ''IMG''" "suffix (action ?r0) = None" "separator (action ?r0) = ''-''"
    by (simp_all add: pdf_rule_def demo_action_def)
  have skip: "plan_move_operations demo_sys (demo_world, 0) ?r0 [] = ((demo_world, 0), Inr [])"
    using planner_scan_scope [where r = ?r0 and S = demo_sys and w = "(demo_world, 0)" and ops = "[]"] nopath
    by blast
  have moved: "plan_move_operations demo_sys (demo_world, 0) ?r1 []
       = ((demo_world, 1), Inr [Operation ''pdfs'' ?c (MoveDetails ''/dst'' False None)])"
    using planner_scan_scope [where r = ?r1 and S = demo_sys and w = "(demo_world, 0)" and ops = "[]"
        and p = "''/tmp''" and m = "''/dst''" and wp = "(demo_world, 1)" and files = "[?c]"] h1 s1 a1
    by (simp add: matching_def demo_matches fields)
  note there = planner_scan_scope [where r = ?r1 and S = demo_sys and w = "(demo_world, 0)" and ops = "[]"
        and wa = "(demo_world, 1)" and wb = "(demo_world, 1)" and wc = "(demo_world, 2)"
        and downloads = "[?a]" and documents = "[]" and desktop = "[?b]"]
  have renamed1: "plan_rename_operations demo_sys (demo_world, 0) ?r1 [] = ((demo_world, 2), Inr [])"
    using there d1 d2 d3 b1 by (simp add: matching_def demo_matches)
  have tagged1: "plan_tag_operations demo_sys (demo_world, 0) ?r1 [] = ((demo_world, 2), Inr [])"
    using there d1 d2 d3 b1 by (simp add: matching_def demo_matches)
  have renamed0: "plan_rename_operations demo_sys (demo_world, 0) ?r0 []
       = ((demo_world, 2), Inr [Operation ''pdfs'' ?a (RenameDetails None (Some ''IMG'') None ''-'')])"
    using planner_scan_scope [where r = ?r0 and S = demo_sys and w = "(demo_world, 0)" and ops = "[]"
        and wa = "(demo_world, 1)" and wb = "(demo_world, 1)" and wc = "(demo_world, 2)"
        and downloads = "[?a]" and documents = "[]" and desktop = "[?b]"] d1 d2 d3 b0
    by (simp add: matching_def demo_matches fields)
  from nopath skip h1 s1 a1 moved d1 d2 d3 b1 renamed1 tagged1 renamed0 show ?thesis by blast
qed


subsection \<open>Runner: execution\<close>

lemma execute_loop_append:
  "execute_loop S w (ops1 @ ops2)
     = (case execute_loop S w ops1 of
          (w1, o1, r1, l1) \<Rightarrow>
            (case execute_loop S w1 ops2 of
               (w2, o2, r2, l2) \<Rightarrow> (w2, o1 @ o2, r1 @ r2, l1 @ l2)))"
proof (induction ops1 arbitrary: w)
  case Nil
  show ?case by (simp split: prod.splits)
next
  case (Cons op ops1)
  show ?case by (simp add: Cons.IH Let_def split: prod.splits)
qed

lemma execute_loop_results:
  "execute_loop S w ops = (w', ops', res, lg) \<Longrightarrow>
     map operation res = ops' \<and> length res = length ops
     \<and> list_all2 (\<lambda>op x. rule_name (operation x) = rule_name op \<and> source (operation x) = source op
                          \<and> details (operation x) = details op \<and> executed (operation x)
                          \<and> (success (operation x) \<or> error (operation x) \<noteq> None)) ops res"
proof (induction ops arbitrary: w w' ops' res lg)
  case Nil
  then show ?case by simp
next
  case (Cons op ops)
  obtain w1 outcome where ex: "execute_operation S w op = (w1, outcome)" by (cases "execute_operation S w op")
  obtain w2 t where now: "datetime_now S w1 = (w2, t)" by (cases "datetime_now S w1")
  obtain w3 ops3 res3 lg3 where rest: "execute_loop S w2 ops = (w3, ops3, res3, lg3)"
    by (cases "execute_loop S w2 ops") auto
  note ih = Cons.IH [OF rest]
  from Cons.prems ex now rest show ?case
    using ih by (cases outcome) (auto simp: Let_def)
qed

text \<open>
  C5. Outside dry-run mode \<open>execute\<close> returns one result for each planned operation,
  in order; each result holds the operation it was planned as, marked executed, and
  marked either successful or failed with an error text. An operation that raises is
  marked failed with \<open>str(e)\<close>, gets its result with the time read after it, and the
  loop goes on with the operations after it from the world the failure left; an
  operation that raises nothing is marked successful in the same way. Running a list is
  running its first part and then the rest.
\<close>

theorem execute_fail_forward:
  "(\<not> dry_run rn \<longrightarrow>
      results (fst (execute S rn (w, lf))) = fst (snd (execute S rn (w, lf)))
      \<and> operations (fst (execute S rn (w, lf))) = map operation (fst (snd (execute S rn (w, lf))))
      \<and> length (fst (snd (execute S rn (w, lf)))) = length (operations rn)
      \<and> list_all2 (\<lambda>op x. rule_name (operation x) = rule_name op \<and> source (operation x) = source op
                           \<and> details (operation x) = details op \<and> executed (operation x)
                           \<and> (success (operation x) \<or> error (operation x) \<noteq> None))
           (operations rn) (fst (snd (execute S rn (w, lf)))))
   \<and> (execute_operation S w op = (wa, Some e) \<and> datetime_now S wa = (wb, t) \<longrightarrow>
        execute_loop S w (op # ops)
          = (case execute_loop S wb ops of
               (w3, ops', res, lg) \<Rightarrow>
                 (w3, op\<lparr>executed := True, success := False, error := Some (str_of_exn e)\<rparr> # ops',
                  \<lparr>operation = op\<lparr>executed := True, success := False, error := Some (str_of_exn e)\<rparr>,
                   timestamp = t\<rparr> # res,
                  Failed (op\<lparr>executed := True, success := False, error := Some (str_of_exn e)\<rparr>)
                    (str_of_exn e) # lg)))
   \<and> (execute_operation S w op = (wa, None) \<and> datetime_now S wa = (wb, t) \<longrightarrow>
        execute_loop S w (op # ops)
          = (case execute_loop S wb ops of
               (w3, ops', res, lg) \<Rightarrow>
                 (w3, op\<lparr>executed := True, success := True\<rparr> # ops',
                  \<lparr>operation = op\<lparr>executed := True, success := True\<rparr>, timestamp = t\<rparr> # res,
                  Success (op\<lparr>executed := True, success := True\<rparr>) # lg)))
   \<and> execute_loop S w (before @ after)
       = (case execute_loop S w before of
            (v1, o1, r1, l1) \<Rightarrow>
              (case execute_loop S v1 after of
                 (v2, o2, r2, l2) \<Rightarrow> (v2, o1 @ o2, r1 @ r2, l1 @ l2)))"
proof (intro conjI impI)
  assume live: "\<not> dry_run rn"
  obtain w' ops' res lg where run: "execute_loop S w (operations rn) = (w', ops', res, lg)"
    by (cases "execute_loop S w (operations rn)") auto
  from live run have ex: "execute S rn (w, lf) = (rn\<lparr>operations := ops', results := res\<rparr>, res, (w', lf @ lg))"
    by (simp add: execute_def)
  note facts = execute_loop_results [OF run]
  show "results (fst (execute S rn (w, lf))) = fst (snd (execute S rn (w, lf)))" by (simp add: ex)
  show "operations (fst (execute S rn (w, lf))) = map operation (fst (snd (execute S rn (w, lf))))"
    using facts by (simp add: ex)
  show "length (fst (snd (execute S rn (w, lf)))) = length (operations rn)"
    using facts by (simp add: ex)
  show "list_all2 (\<lambda>op x. rule_name (operation x) = rule_name op \<and> source (operation x) = source op
                           \<and> details (operation x) = details op \<and> executed (operation x)
                           \<and> (success (operation x) \<or> error (operation x) \<noteq> None))
           (operations rn) (fst (snd (execute S rn (w, lf))))"
    using facts by (simp add: ex)
next
  assume "execute_operation S w op = (wa, Some e) \<and> datetime_now S wa = (wb, t)"
  then show "execute_loop S w (op # ops)
          = (case execute_loop S wb ops of
               (w3, ops', res, lg) \<Rightarrow>
                 (w3, op\<lparr>executed := True, success := False, error := Some (str_of_exn e)\<rparr> # ops',
                  \<lparr>operation = op\<lparr>executed := True, success := False, error := Some (str_of_exn e)\<rparr>,
                   timestamp = t\<rparr> # res,
                  Failed (op\<lparr>executed := True, success := False, error := Some (str_of_exn e)\<rparr>)
                    (str_of_exn e) # lg))"
    by (simp add: Let_def)
next
  assume "execute_operation S w op = (wa, None) \<and> datetime_now S wa = (wb, t)"
  then show "execute_loop S w (op # ops)
          = (case execute_loop S wb ops of
               (w3, ops', res, lg) \<Rightarrow>
                 (w3, op\<lparr>executed := True, success := True\<rparr> # ops',
                  \<lparr>operation = op\<lparr>executed := True, success := True\<rparr>, timestamp = t\<rparr> # res,
                  Success (op\<lparr>executed := True, success := True\<rparr>) # lg))"
    by (simp add: Let_def)
next
  show "execute_loop S w (before @ after)
       = (case execute_loop S w before of
            (v1, o1, r1, l1) \<Rightarrow>
              (case execute_loop S v1 after of
                 (v2, o2, r2, l2) \<Rightarrow> (v2, o1 @ o2, r1 @ r2, l1 @ l2)))"
    by (rule execute_loop_append)
qed

lemma demo_rename_evals:
  "execute_operation demo_sys ([Path ''/'' [''pics'', ''vacation.png'']], 0)
       (Operation ''r1'' (Path ''/'' [''pics'', ''gone.png'']) (RenameDetails None (Some ''IMG'') None ''-''))
     = (([Path ''/'' [''pics'', ''vacation.png'']], 0), Some (Raised FileNotFoundError ''File not found: /pics/gone.png''))"
  "execute_operation demo_sys ([Path ''/'' [''pics'', ''vacation.png'']], 0)
       (Operation ''r1'' (Path ''/'' [''pics'', ''vacation.png'']) (RenameDetails None (Some ''IMG'') None ''-''))
     = (([Path ''/'' [''pics'', ''IMG-vacation.png'']], 0), None)"
  by (simp_all add: execute_operation_def Operation_def execute_rename_def renamer_rename_def under_def too_long_def
      path_str_def new_name_vacation [where ps = "[''pics'']", simplified] joinpath_part path_parent_def
      Let_def)

text \<open>C5, in the small world: the first rename fails for a missing file, the second is carried out; both have a result.\<close>

theorem execute_fail_forward_witness:
  "\<not> dry_run demo_runner
   \<and> execute_operation demo_sys ([Path ''/'' [''pics'', ''vacation.png'']], 0)
         (Operation ''r1'' (Path ''/'' [''pics'', ''gone.png'']) (RenameDetails None (Some ''IMG'') None ''-''))
       = (([Path ''/'' [''pics'', ''vacation.png'']], 0),
          Some (Raised FileNotFoundError ''File not found: /pics/gone.png''))
   \<and> datetime_now demo_sys ([Path ''/'' [''pics'', ''vacation.png'']], 0) = (([Path ''/'' [''pics'', ''vacation.png'']], 0), 1)
   \<and> length (fst (snd (execute demo_sys demo_runner (([Path ''/'' [''pics'', ''vacation.png'']], 0), [])))) = 2
   \<and> map success (operations (fst (execute demo_sys demo_runner (([Path ''/'' [''pics'', ''vacation.png'']], 0), []))))
       = [False, True]
   \<and> map error (operations (fst (execute demo_sys demo_runner (([Path ''/'' [''pics'', ''vacation.png'']], 0), []))))
       = [Some ''File not found: /pics/gone.png'', None]
   \<and> fst (snd (snd (execute demo_sys demo_runner (([Path ''/'' [''pics'', ''vacation.png'']], 0), []))))
       = ([Path ''/'' [''pics'', ''IMG-vacation.png'']], 0)"
proof -
  let ?W = "([Path ''/'' [''pics'', ''vacation.png'']], 0::nat)"
  let ?op1 = "Operation ''r1'' (Path ''/'' [''pics'', ''gone.png'']) (RenameDetails None (Some ''IMG'') None ''-'')"
  let ?op2 = "Operation ''r1'' (Path ''/'' [''pics'', ''vacation.png'']) (RenameDetails None (Some ''IMG'') None ''-'')"
  have live: "\<not> dry_run demo_runner" by (simp add: demo_runner_def)
  have ops: "operations demo_runner = [?op1, ?op2]" by (simp add: demo_runner_def)
  have now: "datetime_now demo_sys ?W = (?W, 1)" by simp
  note inst = execute_fail_forward [where S = demo_sys and rn = demo_runner and w = ?W and lf = "[]" and op = ?op1
      and ops = "[?op2]" and wa = ?W and wb = ?W and t = 1
      and e = "Raised FileNotFoundError ''File not found: /pics/gone.png''"]
  from inst live ops have len: "length (fst (snd (execute demo_sys demo_runner (?W, [])))) = 2"
    by simp
  from inst demo_rename_evals(1) now
  have loop: "execute_loop demo_sys ?W [?op1, ?op2]
          = (case execute_loop demo_sys ?W [?op2] of
               (w3, ops', res, lg) \<Rightarrow>
                 (w3, ?op1\<lparr>executed := True, success := False, error := Some ''File not found: /pics/gone.png''\<rparr> # ops',
                  \<lparr>operation = ?op1\<lparr>executed := True, success := False, error := Some ''File not found: /pics/gone.png''\<rparr>,
                   timestamp = 1\<rparr> # res,
                  Failed (?op1\<lparr>executed := True, success := False, error := Some ''File not found: /pics/gone.png''\<rparr>)
                    ''File not found: /pics/gone.png'' # lg))"
    by simp
  have second: "execute_loop demo_sys ?W [?op2]
      = (([Path ''/'' [''pics'', ''IMG-vacation.png'']], 0), [?op2\<lparr>executed := True, success := True\<rparr>],
         [\<lparr>operation = ?op2\<lparr>executed := True, success := True\<rparr>, timestamp = 1\<rparr>],
         [Success (?op2\<lparr>executed := True, success := True\<rparr>)])"
    by (simp add: demo_rename_evals(2) Let_def)
  have ex: "execute demo_sys demo_runner (?W, [])
      = (demo_runner\<lparr>operations := [?op1\<lparr>executed := True, success := False, error := Some ''File not found: /pics/gone.png''\<rparr>,
                                         ?op2\<lparr>executed := True, success := True\<rparr>],
           results := [\<lparr>operation = ?op1\<lparr>executed := True, success := False, error := Some ''File not found: /pics/gone.png''\<rparr>, timestamp = 1\<rparr>,
                       \<lparr>operation = ?op2\<lparr>executed := True, success := True\<rparr>, timestamp = 1\<rparr>]\<rparr>,
         [\<lparr>operation = ?op1\<lparr>executed := True, success := False, error := Some ''File not found: /pics/gone.png''\<rparr>, timestamp = 1\<rparr>,
          \<lparr>operation = ?op2\<lparr>executed := True, success := True\<rparr>, timestamp = 1\<rparr>],
         (([Path ''/'' [''pics'', ''IMG-vacation.png'']], 0),
          [Failed (?op1\<lparr>executed := True, success := False, error := Some ''File not found: /pics/gone.png''\<rparr>) ''File not found: /pics/gone.png'',
           Success (?op2\<lparr>executed := True, success := True\<rparr>)]))"
    unfolding execute_def using live ops loop second by simp
  have flags: "map success (operations (fst (execute demo_sys demo_runner (?W, [])))) = [False, True]"
    "map error (operations (fst (execute demo_sys demo_runner (?W, [])))) = [Some ''File not found: /pics/gone.png'', None]"
    "fst (snd (snd (execute demo_sys demo_runner (?W, [])))) = ([Path ''/'' [''pics'', ''IMG-vacation.png'']], 0)"
    by (simp_all add: ex Operation_def)
  from live demo_rename_evals(1) now len flags show ?thesis by blast
qed


subsection \<open>Runner: a move with a tag\<close>

lemma execute_loop_single_flag:
  "map success (fst (snd (execute_loop S w [op]))) = [snd (execute_operation S w op) = None]"
  by (cases "execute_operation S w op"; cases "snd (execute_operation S w op)")
     (auto simp: Let_def split: prod.splits)

text \<open>
  The tagger reaches the world through the external programs alone: whatever these
  leave as it is, \<open>add_tag\<close> leaves as it is, whether it returns or raises.
\<close>

lemma add_tag_keeps:
  assumes "programs_keep S obs"
  shows "obs (fst (add_tag S w file_path color label)) = obs w"
proof -
  have run: "\<And>v c. obs (fst (subprocess_run S v c)) = obs v"
    using assms by (simp add: programs_keep_def)
  have osa: "\<And>v p ts. obs (fst (add_tag_osascript S v p ts)) = obs v"
  proof -
    fix v p ts
    show "obs (fst (add_tag_osascript S v p ts)) = obs v"
    proof (cases "resolve S v p")
      case (Inl e)
      then show ?thesis by (simp add: add_tag_osascript_def)
    next
      case (Inr q)
      then show ?thesis
        using run [of v "OsascriptSetLabel q (color_index_of S ts)"]
        by (auto simp: add_tag_osascript_def split: prod.splits sum.splits)
    qed
  qed
  define tags where
    "tags = (case color of
               None \<Rightarrow> []
             | Some c \<Rightarrow>
                 (if c \<noteq> [] then
                    (case map_of TAG_COLORS (lower S c) of Some t \<Rightarrow> [t] | None \<Rightarrow> [])
                  else []))
            @ (case label of None \<Rightarrow> [] | Some l \<Rightarrow> if l \<noteq> [] then [l] else [])"
  show ?thesis
  proof (cases "is_macos S")
    case False
    then show ?thesis by (simp add: add_tag_def)
  next
    case mac: True
    show ?thesis
    proof (cases "path_exists S w file_path")
      case (Inl e)
      with mac show ?thesis by (simp add: add_tag_def)
    next
      case ex: (Inr there)
      show ?thesis
      proof (cases "there \<and> tags \<noteq> []")
        case False
        with mac ex show ?thesis by (auto simp: add_tag_def tags_def Let_def)
      next
        case go: True
        show ?thesis
        proof (cases "plist_base64 S tags")
          case (Inl e)
          with mac ex go show ?thesis by (simp add: add_tag_def tags_def [symmetric] Let_def)
        next
          case pl: (Inr plist)
          obtain wx r where x: "subprocess_run S w (XattrWriteTags plist file_path) = (wx, r)"
            by (cases "subprocess_run S w (XattrWriteTags plist file_path)")
          have ox: "obs wx = obs w" using run [of w "XattrWriteTags plist file_path"] x by simp
          obtain wy out where y: "add_tag_osascript S wx file_path tags = (wy, out)"
            by (cases "add_tag_osascript S wx file_path tags")
          have oy: "obs wy = obs wx" using osa [of wx file_path tags] y by simp
          have "fst (add_tag S w file_path color label) = wx \<or> fst (add_tag S w file_path color label) = wy"
            using mac ex go pl x y
            by (cases r; cases out) (simp_all add: add_tag_def tags_def [symmetric] Let_def)
          then show ?thesis using ox oy by auto
        qed
      qed
    qed
  qed
qed

text \<open>
  C6, as the code has it. The tag step of a move operation is the call
  \<open>add_tag(operation.source, **tag)\<close>, made after \<open>Mover.move\<close> has returned: when
  the move raises, the operation fails with that exception in the world the failed move
  left, and the tagger is not called. After a move that succeeded, nothing moves the
  file back: whatever the external programs of the tagger leave as it is, is after the
  operation as it was after the move. When \<open>add_tag\<close> returns, \<open>False\<close> included, the
  operation is reported successful; when the call raises, the operation is reported
  failed, in the world where the file is relocated. The call raises \<open>TypeError\<close> for a
  tag mapping with a key other than \<open>color\<close> and \<open>label\<close>, and it passes on an
  exception of \<open>exists\<close>. The success flag of an operation is set exactly when its
  dispatch raised nothing.
\<close>

theorem move_then_tag:
  "((if cim then mkdir_parents S w (path_of_string dst) else (w, None)) = (wd, None) \<longrightarrow>
      (mover_move S wd src (path_of_string dst) = (wm, Inl e) \<longrightarrow>
         execute_move S w src dst cim tg = (wm, Some e))
      \<and> (mover_move S wd src (path_of_string dst) = (wm, Inr moved) \<longrightarrow>
           (\<not> truthy tg \<longrightarrow> execute_move S w src dst cim tg = (wm, None))
           \<and> (tg = Some kw \<and> kw \<noteq> [] \<longrightarrow>
                (programs_keep S obs \<longrightarrow> obs (fst (execute_move S w src dst cim tg)) = obs wm)
                \<and> (tag_keys_ok kw
                     \<and> add_tag S wm src (map_of kw ''color'') (map_of kw ''label'') = (wt, Inr tagged) \<longrightarrow>
                    execute_move S w src dst cim tg = (wt, None))
                \<and> (tag_keys_ok kw
                     \<and> add_tag S wm src (map_of kw ''color'') (map_of kw ''label'') = (wt, Inl x) \<longrightarrow>
                    execute_move S w src dst cim tg = (wt, Some x))
                \<and> (\<not> tag_keys_ok kw \<longrightarrow>
                    execute_move S w src dst cim tg
                      = (wm, Some (Raised TypeError (unexpected_keyword S (map fst kw))))))))
   \<and> (details op = MoveDetails dst cim tg \<longrightarrow>
        execute_operation S w op = execute_move S w (source op) dst cim tg)
   \<and> map success (fst (snd (execute_loop S w [op]))) = [snd (execute_operation S w op) = None]"
proof (intro conjI impI)
  assume prep: "(if cim then mkdir_parents S w (path_of_string dst) else (w, None)) = (wd, None)"
    and mv: "mover_move S wd src (path_of_string dst) = (wm, Inl e)"
  then show "execute_move S w src dst cim tg = (wm, Some e)"
    by (simp add: execute_move_def Let_def)
next
  assume prep: "(if cim then mkdir_parents S w (path_of_string dst) else (w, None)) = (wd, None)"
    and mv: "mover_move S wd src (path_of_string dst) = (wm, Inr moved)"
    and tg: "\<not> truthy tg"
  then show "execute_move S w src dst cim tg = (wm, None)"
    by (simp add: execute_move_def Let_def)
next
  assume prep: "(if cim then mkdir_parents S w (path_of_string dst) else (w, None)) = (wd, None)"
    and mv: "mover_move S wd src (path_of_string dst) = (wm, Inr moved)"
    and tg: "tg = Some kw \<and> kw \<noteq> []"
    and keep: "programs_keep S obs"
  have "fst (execute_move S w src dst cim tg) = fst (add_tag_kwargs S wm src kw)"
    using prep mv tg by (simp add: execute_move_def Let_def split: prod.splits sum.splits)
  also have "obs \<dots> = obs wm"
    using add_tag_keeps [OF keep] by (simp add: add_tag_kwargs_def)
  finally show "obs (fst (execute_move S w src dst cim tg)) = obs wm" .
next
  assume prep: "(if cim then mkdir_parents S w (path_of_string dst) else (w, None)) = (wd, None)"
    and mv: "mover_move S wd src (path_of_string dst) = (wm, Inr moved)"
    and tg: "tg = Some kw \<and> kw \<noteq> []"
    and ok: "tag_keys_ok kw \<and> add_tag S wm src (map_of kw ''color'') (map_of kw ''label'') = (wt, Inr tagged)"
  then show "execute_move S w src dst cim tg = (wt, None)"
    by (simp add: execute_move_def Let_def add_tag_kwargs_def tag_keys_ok_def)
next
  assume prep: "(if cim then mkdir_parents S w (path_of_string dst) else (w, None)) = (wd, None)"
    and mv: "mover_move S wd src (path_of_string dst) = (wm, Inr moved)"
    and tg: "tg = Some kw \<and> kw \<noteq> []"
    and ok: "tag_keys_ok kw \<and> add_tag S wm src (map_of kw ''color'') (map_of kw ''label'') = (wt, Inl x)"
  then show "execute_move S w src dst cim tg = (wt, Some x)"
    by (simp add: execute_move_def Let_def add_tag_kwargs_def tag_keys_ok_def)
next
  assume prep: "(if cim then mkdir_parents S w (path_of_string dst) else (w, None)) = (wd, None)"
    and mv: "mover_move S wd src (path_of_string dst) = (wm, Inr moved)"
    and tg: "tg = Some kw \<and> kw \<noteq> []"
    and bad: "\<not> tag_keys_ok kw"
  then show "execute_move S w src dst cim tg
                  = (wm, Some (Raised TypeError (unexpected_keyword S (map fst kw))))"
    by (simp add: execute_move_def Let_def add_tag_kwargs_def tag_keys_ok_def)
next
  assume "details op = MoveDetails dst cim tg"
  then show "execute_operation S w op = execute_move S w (source op) dst cim tg"
    by (simp add: execute_operation_def)
next
  show "map success (fst (snd (execute_loop S w [op]))) = [snd (execute_operation S w op) = None]"
    by (rule execute_loop_single_flag)
qed


text \<open>
  \<open>add_tag\<close> returns \<open>False\<close>, with no program started, for a path at which nothing
  exists. The path the executor gives it after a move is \<open>operation.source\<close>, the
  path the file was moved from.
\<close>

lemma add_tag_nothing_there:
  "path_exists S w p = Inr False \<Longrightarrow> add_tag S w p color label = (w, Inr False)"
  by (simp add: add_tag_def)

lemma mac_sys_sel [simp]:
  "platform_system mac_sys = ''Darwin''"
  "path_exists mac_sys = path_exists demo_sys"
  "is_dir mac_sys = is_dir demo_sys"
  "mkdir_parents mac_sys = mkdir_parents demo_sys"
  "shutil_move mac_sys = shutil_move demo_sys"
  "subprocess_run mac_sys = subprocess_run demo_sys"
  "unexpected_keyword mac_sys = unexpected_keyword demo_sys"
  by (simp_all add: mac_sys_def)

lemma demo_move_evals:
  "mover_move demo_sys (demo_world, 0) (Path ''/'' [''tmp'', ''c.pdf'']) (path_of_string ''/dst/c.pdf'')
     = ((moved_world, 0), Inr (Path ''/'' [''dst'', ''c.pdf'']))"
  "mover_move mac_sys (demo_world, 0) (Path ''/'' [''tmp'', ''c.pdf'']) (path_of_string ''/dst/c.pdf'')
     = ((moved_world, 0), Inr (Path ''/'' [''dst'', ''c.pdf'']))"
  by (simp_all add: mover_move_def demo_world_def moved_world_def path_of_string_def root_of_string_def
      startswith_def under_def path_parent_def path_str_def too_long_def Let_def)

lemma demo_tagged_move_bad_key:
  "execute_operation demo_sys (demo_world, 0) (tagged_move [(''name'', ''Work'')])
     = ((moved_world, 0), Some (Raised TypeError ''unexpected keyword argument''))"
  by (simp add: execute_operation_def tagged_move_def Operation_def execute_move_def demo_move_evals
      add_tag_kwargs_def Let_def)

text \<open>
  C6, as the claim states it, fails: a move whose tag mapping is \<open>{name: Work}\<close>
  relocates the file, the relocation stays, and the tag step that fails marks the
  move operation itself as failed.
\<close>

theorem move_tag_failure_counterexample:
  "mover_move demo_sys (demo_world, 0) (Path ''/'' [''tmp'', ''c.pdf'']) (path_of_string ''/dst/c.pdf'')
     = ((moved_world, 0), Inr (Path ''/'' [''dst'', ''c.pdf'']))
   \<and> fst (snd (snd (execute demo_sys
         \<lparr>dry_run = False, operations = [tagged_move [(''name'', ''Work'')]], results = []\<rparr>
         ((demo_world, 0), [])))) = (moved_world, 0)
   \<and> map success (operations (fst (execute demo_sys
         \<lparr>dry_run = False, operations = [tagged_move [(''name'', ''Work'')]], results = []\<rparr>
         ((demo_world, 0), [])))) = [False]"
  by (simp add: demo_move_evals execute_def demo_tagged_move_bad_key Let_def)

text \<open>
  C6, in the small world on macOS. With the tag \<open>{color: red}\<close> the move succeeds and
  the file stays in \<open>/dst\<close>, although \<open>add_tag\<close> returns \<open>False\<close>; with
  \<open>{name: Work}\<close> the operation is reported failed after the file has moved; a move of
  a missing file fails before any tagging.
\<close>

theorem move_then_tag_witness:
  "(if False then mkdir_parents mac_sys (demo_world, 0) (path_of_string ''/dst/c.pdf'') else ((demo_world, 0), None))
     = ((demo_world, 0), None)
   \<and> mover_move mac_sys (demo_world, 0) (Path ''/'' [''tmp'', ''c.pdf'']) (path_of_string ''/dst/c.pdf'')
       = ((moved_world, 0), Inr (Path ''/'' [''dst'', ''c.pdf'']))
   \<and> programs_keep mac_sys fst
   \<and> tag_keys_ok [(''color'', ''red'')]
   \<and> add_tag mac_sys (moved_world, 0) (Path ''/'' [''tmp'', ''c.pdf'']) (Some ''red'') None
       = ((moved_world, 0), Inr False)
   \<and> execute_move mac_sys (demo_world, 0) (Path ''/'' [''tmp'', ''c.pdf'']) ''/dst/c.pdf'' False
         (Some [(''color'', ''red'')]) = ((moved_world, 0), None)
   \<and> \<not> tag_keys_ok [(''name'', ''Work'')]
   \<and> execute_move mac_sys (demo_world, 0) (Path ''/'' [''tmp'', ''c.pdf'']) ''/dst/c.pdf'' False
         (Some [(''name'', ''Work'')])
       = ((moved_world, 0), Some (Raised TypeError (unexpected_keyword mac_sys [''name''])))
   \<and> fst (fst (execute_move mac_sys (demo_world, 0) (Path ''/'' [''tmp'', ''c.pdf'']) ''/dst/c.pdf'' False
         (Some [(''name'', ''Work'')]))) = moved_world
   \<and> mover_move mac_sys (demo_world, 0) (Path ''/'' [''tmp'', ''gone.pdf'']) (path_of_string ''/dst/c.pdf'')
       = ((demo_world, 0), Inl (Raised FileNotFoundError ''Source file not found: /tmp/gone.pdf''))
   \<and> execute_move mac_sys (demo_world, 0) (Path ''/'' [''tmp'', ''gone.pdf'']) ''/dst/c.pdf'' False
         (Some [(''color'', ''red'')])
       = ((demo_world, 0), Some (Raised FileNotFoundError ''Source file not found: /tmp/gone.pdf''))
   \<and> map success (fst (snd (execute_loop mac_sys (demo_world, 0) [tagged_move [(''color'', ''red'')]]))) = [True]"
proof -
  let ?src = "Path ''/'' [''tmp'', ''c.pdf'']"
  let ?w = "(demo_world, 0::nat)" and ?m = "(moved_world, 0::nat)"
  have prep: "(if False then mkdir_parents mac_sys ?w (path_of_string ''/dst/c.pdf'') else (?w, None))
     = (?w, None)" by simp
  have keep: "programs_keep mac_sys fst" by (simp add: programs_keep_def)
  have ok: "tag_keys_ok [(''color'', ''red'')]" and bad: "\<not> tag_keys_ok [(''name'', ''Work'')]"
    by (simp_all add: tag_keys_ok_def)
  have tagf: "add_tag mac_sys ?m ?src (Some ''red'') None = (?m, Inr False)"
    by (simp add: add_tag_def is_macos_def moved_world_def under_def too_long_def)
  have gone: "mover_move mac_sys ?w (Path ''/'' [''tmp'', ''gone.pdf'']) (path_of_string ''/dst/c.pdf'')
       = (?w, Inl (Raised FileNotFoundError ''Source file not found: /tmp/gone.pdf''))"
    by (simp add: mover_move_def demo_world_def under_def path_str_def too_long_def)
  note inst = move_then_tag [where S = mac_sys and w = ?w and wd = ?w and cim = False
      and dst = "''/dst/c.pdf''" and wm = ?m and src = ?src and moved = "Path ''/'' [''dst'', ''c.pdf'']"
      and obs = fst]
  have good: "execute_move mac_sys ?w ?src ''/dst/c.pdf'' False (Some [(''color'', ''red'')]) = (?m, None)"
    using inst [where tg = "Some [(''color'', ''red'')]" and kw = "[(''color'', ''red'')]" and wt = ?m
        and tagged = False] prep demo_move_evals(2) ok tagf by simp
  have raised: "execute_move mac_sys ?w ?src ''/dst/c.pdf'' False (Some [(''name'', ''Work'')])
       = (?m, Some (Raised TypeError (unexpected_keyword mac_sys [''name''])))"
    using inst [where tg = "Some [(''name'', ''Work'')]" and kw = "[(''name'', ''Work'')]"]
      prep demo_move_evals(2) bad by simp
  have stays: "fst (fst (execute_move mac_sys ?w ?src ''/dst/c.pdf'' False (Some [(''name'', ''Work'')])))
       = moved_world"
    using inst [where tg = "Some [(''name'', ''Work'')]" and kw = "[(''name'', ''Work'')]"]
      prep demo_move_evals(2) keep by simp
  have notmoved: "execute_move mac_sys ?w (Path ''/'' [''tmp'', ''gone.pdf'']) ''/dst/c.pdf'' False
         (Some [(''color'', ''red'')])
       = (?w, Some (Raised FileNotFoundError ''Source file not found: /tmp/gone.pdf''))"
    using move_then_tag [where S = mac_sys and w = ?w and wd = ?w and cim = False
      and dst = "''/dst/c.pdf''" and wm = ?w and src = "Path ''/'' [''tmp'', ''gone.pdf'']"
      and e = "Raised FileNotFoundError ''Source file not found: /tmp/gone.pdf''"
      and tg = "Some [(''color'', ''red'')]"] prep gone by simp
  have fields: "details (tagged_move [(''color'', ''red'')]) = MoveDetails ''/dst/c.pdf'' False (Some [(''color'', ''red'')])"
    "source (tagged_move [(''color'', ''red'')]) = ?src"
    by (simp_all add: tagged_move_def Operation_def)
  note one = move_then_tag [where S = mac_sys and w = ?w and op = "tagged_move [(''color'', ''red'')]"
        and dst = "''/dst/c.pdf''" and cim = False and tg = "Some [(''color'', ''red'')]"]
  from one fields have "execute_operation mac_sys ?w (tagged_move [(''color'', ''red'')])
      = execute_move mac_sys ?w ?src ''/dst/c.pdf'' False (Some [(''color'', ''red'')])"
    by metis
  with good have "snd (execute_operation mac_sys ?w (tagged_move [(''color'', ''red'')])) = None"
    by simp
  moreover from one have "map success (fst (snd (execute_loop mac_sys ?w [tagged_move [(''color'', ''red'')]])))
      = [snd (execute_operation mac_sys ?w (tagged_move [(''color'', ''red'')])) = None]"
    by blast
  ultimately have flag: "map success (fst (snd (execute_loop mac_sys ?w [tagged_move [(''color'', ''red'')]]))) = [True]"
    by simp
  from prep demo_move_evals(2) keep ok tagf good bad raised stays gone notmoved flag show ?thesis by blast
qed


subsection \<open>Runner: dry run\<close>

text \<open>
  Planning reaches the world through \<open>exists\<close>, \<open>is_file\<close>, \<open>stat\<close>, the walk of a
  directory tree and the reading of a file's content, and through nothing else. So an
  observation of the world that the walks and the readings leave as it is, is after
  each step of the planning as it was before, whether the step returns or raises.
\<close>

lemma scan_items_keeps:
  "list_all (\<lambda>y. obs (fst y) = obs w0) items \<Longrightarrow> obs w = obs w0 \<Longrightarrow>
     obs (fst (scan_items S w items files)) = obs w0"
proof (induction items arbitrary: w files)
  case Nil
  then show ?case by simp
next
  case (Cons y items)
  obtain wi item where y: "y = (wi, item)" by (cases y)
  with Cons.prems have here: "obs wi = obs w0" and rest: "list_all (\<lambda>y. obs (fst y) = obs w0) items"
    by simp_all
  show ?case
  proof (cases "is_file S wi item")
    case (Inl e)
    with y here show ?thesis by simp
  next
    case (Inr regular)
    with y show ?thesis using Cons.IH [OF rest here] by simp
  qed
qed

lemma scan_directory_keeps:
  assumes "reads_keep S obs"
  shows "obs (fst (scan_directory S w p)) = obs w"
proof -
  let ?sp = "path_of_string (expanduser S p)"
  obtain items w_end err where walk: "rglob S w ?sp = (items, w_end, err)"
    by (cases "rglob S w ?sp") auto
  from assms have "list_all (\<lambda>y. obs (fst y) = obs w) (fst (rglob S w ?sp))"
    and "obs (fst (snd (rglob S w ?sp))) = obs w"
    by (simp_all add: reads_keep_def)
  with walk have items: "list_all (\<lambda>y. obs (fst y) = obs w) items" and ending: "obs w_end = obs w"
    by simp_all
  have loop: "obs (fst (scan_items S w items [])) = obs w"
    by (rule scan_items_keeps [OF items refl])
  show ?thesis
    using walk loop ending
    by (cases "scan_items S w items []")
       (auto simp: scan_directory_def Let_def split: sum.splits option.splits)
qed

lemma find_by_content_loop_keeps:
  assumes "reads_keep S obs"
  shows "obs (fst (find_by_content_loop S w d files)) = obs w"
proof (induction files arbitrary: w d)
  case Nil
  show ?case by simp
next
  case (Cons f files)
  show ?case
  proof (cases "is_file S w f")
    case (Inl e)
    then show ?thesis by simp
  next
    case (Inr regular)
    obtain wh r where h: "hash_file S w f = (wh, r)" by (cases "hash_file S w f")
    have "obs wh = obs w" using hash_file_keeps [OF assms, of w f] h by simp
    then show ?thesis using Inr h Cons.IH by (cases r) auto
  qed
qed

lemma find_duplicates_keeps:
  assumes "reads_keep S obs"
  shows "obs (fst (find_duplicates S w files chk)) = obs w"
  using find_by_content_loop_keeps [OF assms, of w "[]" files]
  by (cases "find_by_content_loop S w [] files")
     (auto simp: find_duplicates_def find_by_content_def split: sum.splits)

lemma plan_move_operations_keeps:
  assumes "reads_keep S obs"
  shows "obs (fst (plan_move_operations S w r ops)) = obs w"
  using scan_directory_keeps [OF assms, of w "case path (condition r) of Some p \<Rightarrow> p | None \<Rightarrow> []"]
  by (cases "scan_directory S w (case path (condition r) of Some p \<Rightarrow> p | None \<Rightarrow> [])")
     (auto simp: plan_move_operations_def split: sum.splits)

lemma plan_scan_paths_keeps:
  assumes "reads_keep S obs"
  shows "obs (fst (plan_scan_paths S w r mk scan_paths ops)) = obs w"
proof (induction scan_paths arbitrary: w ops)
  case Nil
  show ?case by simp
next
  case (Cons sp sps)
  obtain ws res where s: "scan_directory S w sp = (ws, res)" by (cases "scan_directory S w sp")
  have "obs ws = obs w" using scan_directory_keeps [OF assms, of w sp] s by simp
  then show ?case using s Cons.IH by (cases res) (auto split: sum.splits)
qed

lemma plan_rename_operations_keeps:
  assumes "reads_keep S obs"
  shows "obs (fst (plan_rename_operations S w r ops)) = obs w"
  unfolding plan_rename_operations_def by (rule plan_scan_paths_keeps [OF assms])

lemma plan_tag_operations_keeps:
  assumes "reads_keep S obs"
  shows "obs (fst (plan_tag_operations S w r ops)) = obs w"
  unfolding plan_tag_operations_def by (rule plan_scan_paths_keeps [OF assms])

lemma scan_all_keeps:
  assumes "reads_keep S obs"
  shows "obs (fst (scan_all S w scan_paths all_files)) = obs w"
proof (induction scan_paths arbitrary: w all_files)
  case Nil
  show ?case by simp
next
  case (Cons sp sps)
  obtain ws res where s: "scan_directory S w sp = (ws, res)" by (cases "scan_directory S w sp")
  have "obs ws = obs w" using scan_directory_keeps [OF assms, of w sp] s by simp
  then show ?case using s Cons.IH by (cases res) auto
qed

lemma plan_duplicate_operations_keeps:
  assumes "reads_keep S obs"
  shows "obs (fst (plan_duplicate_operations S w r ops)) = obs w"
proof -
  let ?paths = "[expanduser S ''~/Downloads'', expanduser S ''~/Documents'']"
  obtain ws res where s: "scan_all S w ?paths [] = (ws, res)" by (cases "scan_all S w ?paths []")
  have ws: "obs ws = obs w" using scan_all_keeps [OF assms, of w ?paths "[]"] s by simp
  show ?thesis
  proof (cases res)
    case (Inl e)
    with s ws show ?thesis by (simp add: plan_duplicate_operations_def)
  next
    case (Inr all_files)
    obtain wf found where f: "find_duplicates S ws all_files (check_by r) = (wf, found)"
      by (cases "find_duplicates S ws all_files (check_by r)")
    have "obs wf = obs ws" using find_duplicates_keeps [OF assms, of ws all_files "check_by r"] f by simp
    with s ws Inr f show ?thesis by (cases found) (simp_all add: plan_duplicate_operations_def)
  qed
qed

lemma plan_rules_keeps:
  assumes "\<And>w r ops. obs (fst (plan w r ops)) = obs w"
  shows "obs (fst (plan_rules plan w rs ops)) = obs w"
proof (induction rs arbitrary: w ops)
  case Nil
  show ?case by simp
next
  case (Cons r rs)
  obtain wr res where p: "plan w r ops = (wr, res)" by (cases "plan w r ops")
  have "obs wr = obs w" using assms [of w r ops] p by simp
  then show ?case using p Cons.IH by (cases res) auto
qed

lemma scan_and_plan_keeps:
  assumes "reads_keep S obs"
  shows "obs (fst (scan_and_plan S w rules rn)) = obs w"
proof -
  note mv = plan_rules_keeps [where plan = "plan_move_operations S" and obs = obs,
      OF plan_move_operations_keeps [OF assms]]
  note rnm = plan_rules_keeps [where plan = "plan_rename_operations S" and obs = obs,
      OF plan_rename_operations_keeps [OF assms]]
  note tg = plan_rules_keeps [where plan = "plan_tag_operations S" and obs = obs,
      OF plan_tag_operations_keeps [OF assms]]
  note dup = plan_rules_keeps [where plan = "plan_duplicate_operations S" and obs = obs,
      OF plan_duplicate_operations_keeps [OF assms]]
  obtain wa ra where a: "plan_rules (plan_move_operations S) w (move_rules rules) [] = (wa, ra)"
    by (cases "plan_rules (plan_move_operations S) w (move_rules rules) []")
  have oa: "obs wa = obs w" using mv [of w "move_rules rules" "[]"] a by simp
  show ?thesis
  proof (cases ra)
    case (Inl e)
    with a oa show ?thesis by (simp add: scan_and_plan_def)
  next
    case ia: (Inr opsa)
    obtain wb rb where b: "plan_rules (plan_rename_operations S) wa (rename_rules rules) opsa = (wb, rb)"
      by (cases "plan_rules (plan_rename_operations S) wa (rename_rules rules) opsa")
    have ob: "obs wb = obs w" using rnm [of wa "rename_rules rules" opsa] b oa by simp
    show ?thesis
    proof (cases rb)
      case (Inl e)
      with a ia b ob show ?thesis by (simp add: scan_and_plan_def)
    next
      case ib: (Inr opsb)
      obtain wc rc where c: "plan_rules (plan_tag_operations S) wb (tag_rules rules) opsb = (wc, rc)"
        by (cases "plan_rules (plan_tag_operations S) wb (tag_rules rules) opsb")
      have oc: "obs wc = obs w" using tg [of wb "tag_rules rules" opsb] c ob by simp
      show ?thesis
      proof (cases rc)
        case (Inl e)
        with a ia b ib c oc show ?thesis by (simp add: scan_and_plan_def)
      next
        case ic: (Inr opsc)
        obtain wd rd where d: "plan_rules (plan_duplicate_operations S) wc (duplicate_rules rules) opsc = (wd, rd)"
          by (cases "plan_rules (plan_duplicate_operations S) wc (duplicate_rules rules) opsc")
        have od: "obs wd = obs w" using dup [of wc "duplicate_rules rules" opsc] d oc by simp
        with a ia b ib c ic d show ?thesis by (cases rd) (simp_all add: scan_and_plan_def)
      qed
    qed
  qed
qed

lemma scan_and_plan_dry_run:
  "scan_and_plan S w rules rn = (wp, Inr planned) \<Longrightarrow> dry_run planned = dry_run rn"
  by (auto simp: scan_and_plan_def split: prod.splits sum.splits)


text \<open>
  C4, as the code has it. In dry-run mode \<open>execute\<close> returns the empty list, leaves
  the runner and the files as they are, and appends one line to the log file: the log
  file is the one file it changes. Planning changes nothing that the walks of the
  directory trees and the readings of file contents leave as it is (the content, name,
  place and tags of every file, if these calls set access times at most), whether it
  returns a plan or raises. So a dry run, planning followed by \<open>execute\<close>, ends with
  every such observation of the files as it was at the start, and one more line in the
  log.
\<close>

theorem dry_run_writes_log_only:
  "(dry_run rn \<longrightarrow> execute S rn (w, lf) = (rn, [], (w, lf @ [DryRunNotice])))
   \<and> (reads_keep S obs \<longrightarrow> obs (fst (scan_and_plan S w rules rn)) = obs w)
   \<and> (reads_keep S obs \<and> dry_run rn \<and> scan_and_plan S w rules rn = (wp, Inr planned) \<longrightarrow>
        obs wp = obs w
        \<and> execute S planned (wp, lf) = (planned, [], (wp, lf @ [DryRunNotice])))"
proof (intro conjI impI)
  assume "dry_run rn"
  then show "execute S rn (w, lf) = (rn, [], (w, lf @ [DryRunNotice]))"
    by (simp add: execute_def)
next
  assume "reads_keep S obs"
  then show "obs (fst (scan_and_plan S w rules rn)) = obs w"
    by (rule scan_and_plan_keeps)
next
  assume a: "reads_keep S obs \<and> dry_run rn \<and> scan_and_plan S w rules rn = (wp, Inr planned)"
  then show "obs wp = obs w"
    using scan_and_plan_keeps [of S obs w rules rn] by simp
next
  assume a: "reads_keep S obs \<and> dry_run rn \<and> scan_and_plan S w rules rn = (wp, Inr planned)"
  then have "dry_run planned" using scan_and_plan_dry_run [of S w rules rn wp planned] by simp
  then show "execute S planned (wp, lf) = (planned, [], (wp, lf @ [DryRunNotice]))"
    by (simp add: execute_def)
qed

text \<open>
  C4, as the claim states it, fails: \<open>execute\<close> in dry-run mode changes a file, the
  log file, which has one more line after the call.
\<close>

theorem dry_run_log_counterexample:
  "dry_run preview_runner
   \<and> snd (snd (execute demo_sys preview_runner ((demo_world, 0), []))) = ((demo_world, 0), [DryRunNotice])
   \<and> snd (snd (execute demo_sys preview_runner ((demo_world, 0), []))) \<noteq> ((demo_world, 0), [])"
  by (simp add: execute_def preview_runner_def)

lemma demo_reads_keep: "reads_keep demo_sys fst"
  by (simp add: reads_keep_def list_all_iff)

lemma demo_plan:
  "scan_and_plan demo_sys (demo_world, 0) demo_rules preview_runner
     = ((demo_world, 3),
        Inr (preview_runner\<lparr>operations :=
               [Operation ''pdfs'' (Path ''/'' [''tmp'', ''c.pdf'']) (MoveDetails ''/dst'' False None)]\<rparr>))"
proof -
  have fields: "path (condition (pdf_rule (Some ''/tmp''))) = Some ''/tmp''"
    "move (action (pdf_rule (Some ''/tmp''))) = Some ''/dst''" "name (pdf_rule (Some ''/tmp'')) = ''pdfs''"
    "create_if_missing (action (pdf_rule (Some ''/tmp''))) = False" "tag (action (pdf_rule (Some ''/tmp''))) = None"
    by (simp_all add: pdf_rule_def demo_action_def)
  have mv: "plan_move_operations demo_sys (demo_world, 0) (pdf_rule (Some ''/tmp'')) []
      = ((demo_world, Suc 0), Inr [Operation ''pdfs'' (Path ''/'' [''tmp'', ''c.pdf'']) (MoveDetails ''/dst'' False None)])"
    by (simp add: plan_move_operations_def fields demo_scans demo_matches move_operation_def)
  have rnm: "plan_rename_operations demo_sys (demo_world, Suc 0) (pdf_rule (Some ''/tmp'')) ops
      = ((demo_world, Suc (Suc (Suc 0))), Inr ops)" for ops
    by (simp add: plan_rename_operations_def demo_scans demo_matches)
  show ?thesis
    by (simp add: scan_and_plan_def demo_rules_def mv rnm numeral_3_eq_3)
qed

text \<open>
  C4, in the small world, where each walk and each reading is counted: the dry run
  plans the move of the PDF in \<open>/tmp\<close>, three walks are made, the files are as they
  were, and \<open>execute\<close> adds its line to the log.
\<close>

theorem dry_run_writes_log_only_witness:
  "reads_keep demo_sys fst \<and> dry_run preview_runner
   \<and> scan_and_plan demo_sys (demo_world, 0) demo_rules preview_runner
       = ((demo_world, 3),
          Inr (preview_runner\<lparr>operations :=
                 [Operation ''pdfs'' (Path ''/'' [''tmp'', ''c.pdf'']) (MoveDetails ''/dst'' False None)]\<rparr>))
   \<and> fst (fst (scan_and_plan demo_sys (demo_world, 0) demo_rules preview_runner)) = demo_world
   \<and> execute demo_sys
        (preview_runner\<lparr>operations :=
           [Operation ''pdfs'' (Path ''/'' [''tmp'', ''c.pdf'']) (MoveDetails ''/dst'' False None)]\<rparr>)
        ((demo_world, 3), [])
       = (preview_runner\<lparr>operations :=
            [Operation ''pdfs'' (Path ''/'' [''tmp'', ''c.pdf'']) (MoveDetails ''/dst'' False None)]\<rparr>,
          [], ((demo_world, 3), [DryRunNotice]))"
proof -
  let ?planned = "preview_runner\<lparr>operations :=
           [Operation ''pdfs'' (Path ''/'' [''tmp'', ''c.pdf'']) (MoveDetails ''/dst'' False None)]\<rparr>"
  have dry: "dry_run preview_runner" by (simp add: preview_runner_def)
  note inst = dry_run_writes_log_only [where S = demo_sys and obs = fst and rn = preview_runner
      and w = "(demo_world, 0)" and rules = demo_rules and wp = "(demo_world, 3)" and planned = ?planned
      and lf = "[]"]
  from inst demo_reads_keep
  have same: "fst (fst (scan_and_plan demo_sys (demo_world, 0) demo_rules preview_runner)) = demo_world"
    by simp
  from inst demo_reads_keep dry demo_plan
  have run: "execute demo_sys ?planned ((demo_world, 3), []) = (?planned, [], ((demo_world, 3), [DryRunNotice]))"
    by simp
  from demo_reads_keep dry demo_plan same run show ?thesis by blast
qed


end
